theory Spec2Isabelle
  imports Main "HOL-Library.Word"
begin

section \<open>Errors\<close>

text \<open>
  A Go \<open>error\<close> value is modelled as \<open>error option\<close>: \<open>None\<close> is \<open>nil\<close>.
  The constructors are the typed failures of the cluster client that the code tells
  apart, a generic failure, and the wrapping done by \<open>fmt.Errorf("msg: %w", err)\<close>.
  \<open>WrappedNil\<close> is \<open>fmt.Errorf("msg: %w", nil)\<close>, which is a non-nil error.
\<close>

datatype error =
    NotFound
  | AlreadyExists
  | Conflict
  | Other string
  | Wrapped string error
  | WrappedNil string

text \<open>\<open>fmt.Errorf(msg + ": %w", err)\<close> for a possibly nil \<open>err\<close>.\<close>

definition Errorf :: "string \<Rightarrow> error option \<Rightarrow> error" where
  "Errorf msg err = (case err of None \<Rightarrow> WrappedNil msg | Some e \<Rightarrow> Wrapped msg e)"

text \<open>
  \<open>errors.IsNotFound\<close> and \<open>errors.IsAlreadyExists\<close> of apimachinery look through
  wrapped errors (they use \<open>errors.As\<close>); both are false on \<open>nil\<close>.
\<close>

fun isNotFoundE :: "error \<Rightarrow> bool" where
  "isNotFoundE NotFound = True"
| "isNotFoundE (Wrapped msg e) = isNotFoundE e"
| "isNotFoundE e = False"

fun isAlreadyExistsE :: "error \<Rightarrow> bool" where
  "isAlreadyExistsE AlreadyExists = True"
| "isAlreadyExistsE (Wrapped msg e) = isAlreadyExistsE e"
| "isAlreadyExistsE e = False"

definition IsNotFound :: "error option \<Rightarrow> bool" where
  "IsNotFound err = (case err of None \<Rightarrow> False | Some e \<Rightarrow> isNotFoundE e)"

definition IsAlreadyExists :: "error option \<Rightarrow> bool" where
  "IsAlreadyExists err = (case err of None \<Rightarrow> False | Some e \<Rightarrow> isAlreadyExistsE e)"

text \<open>The error part of a client reply that carries a value on success.\<close>

definition errOf :: "error + 'a \<Rightarrow> error option" where
  "errOf r = (case r of Inl e \<Rightarrow> Some e | Inr v \<Rightarrow> None)"

section \<open>Cluster objects\<close>

text \<open>
  Of every object only the fields that the modelled functions read or write are kept.
  \<open>DeletionTimestamp\<close> is a pointer to a time: \<open>None\<close> is the nil pointer, a time is
  the number of ticks since Go's zero instant.
\<close>

record objectMeta =
  Name :: string
  Finalizers :: "string list"
  DeletionTimestamp :: "nat option"

record objectKey =
  KeyName :: string
  KeyNamespace :: string

text \<open>\<open>appsv1.Deployment\<close>: its status conditions, each a type and a status string.\<close>

record deploymentCondition =
  CondType :: string
  CondStatus :: string

record deployment =
  Conditions :: "deploymentCondition list"

definition DeploymentAvailable :: string where
  "DeploymentAvailable = ''Available''"

definition ConditionTrue :: string where
  "ConditionTrue = ''True''"

definition ConditionFalse :: string where
  "ConditionFalse = ''False''"

text \<open>
  \<open>corev1alpha1.ClusterObjectSet\<close>: \<open>Previous\<close> holds the names of
  \<open>Spec.Previous\<close>, \<open>Revision\<close> is \<open>Status.Revision\<close> (an \<open>int64\<close>), \<open>Phase\<close> is
  \<open>Status.Phase\<close> (a string type).
\<close>

record clusterObjectSet = objectMeta +
  Previous :: "string list"
  Revision :: "64 word"
  Phase :: string

definition ObjectSetStatusPhasePending :: string where
  "ObjectSetStatusPhasePending = ''Pending''"

record clusterObjectDeployment = objectMeta +
  TemplateHash :: string

record clusterPackage = objectMeta +
  Image :: string
  Config :: "string option"

text \<open>
  An \<open>unstructured.Unstructured\<close> object, here a CRD: its name and its label map,
  which \<open>GetLabels\<close> returns as \<open>nil\<close> (\<open>None\<close>) when the object has none.
\<close>

record unstructured =
  UName :: string
  ULabels :: "(string \<times> string) list option"

text \<open>\<open>client.Object\<close>, the interface under which objects are sent to the client.\<close>

datatype clientObject =
    ClusterPackageObj clusterPackage
  | ClusterObjectDeploymentObj clusterObjectDeployment
  | ClusterObjectSetObj clusterObjectSet
  | UnstructuredObj unstructured

datatype kind =
    ClusterPackageKind
  | ClusterObjectDeploymentKind
  | ClusterObjectSetKind
  | DeploymentKind
  | CustomResourceDefinitionKind

section \<open>The cluster client\<close>

text \<open>
  \<open>client.Client\<close> is an interface of controller-runtime and is a parameter of the
  model: a record of operations over a world \<open>'w\<close> that the model knows nothing
  about. Every operation may change the world and may fail. \<open>GetDeployment\<close>, the
  two lists and the status patch return the decoded object; \<open>GetObject\<close> stands for
  the calls of \<open>Get\<close> whose only use is the returned error.
\<close>

record 'w client =
  GetDeployment :: "objectKey \<Rightarrow> 'w \<Rightarrow> (error + deployment) \<times> 'w"
  GetObject :: "kind \<Rightarrow> string \<Rightarrow> 'w \<Rightarrow> error option \<times> 'w"
  ListClusterObjectSets ::
    "(string \<times> string) list \<Rightarrow> 'w \<Rightarrow> (error + clusterObjectSet list) \<times> 'w"
  ListClusterObjectDeployments ::
    "(string \<times> string) list \<Rightarrow> 'w \<Rightarrow> (error + clusterObjectDeployment list) \<times> 'w"
  StatusPatch :: "clusterObjectSet \<Rightarrow> 'w \<Rightarrow> (error + clusterObjectSet) \<times> 'w"
  Create :: "clientObject \<Rightarrow> 'w \<Rightarrow> error option \<times> 'w"
  Delete :: "clientObject \<Rightarrow> 'w \<Rightarrow> error option \<times> 'w"
  Update :: "clientObject \<Rightarrow> 'w \<Rightarrow> error option \<times> 'w"

text \<open>
  The state threaded through the model: the world, and the calls made to the client so
  far, each with the error it returned.
\<close>

datatype call =
    CallGetDeployment objectKey
  | CallGet kind string
  | CallList kind "(string \<times> string) list"
  | CallStatusPatch clusterObjectSet
  | CallCreate clientObject
  | CallDelete clientObject
  | CallUpdate clientObject

record 'w state =
  World :: 'w
  Trace :: "(call \<times> error option) list"

definition logged :: "call \<Rightarrow> error option \<Rightarrow> 'w \<Rightarrow> 'w state \<Rightarrow> 'w state" where
  "logged cl err w s = \<lparr>World = w, Trace = Trace s @ [(cl, err)]\<rparr>"

definition doGetDeployment ::
  "'w client \<Rightarrow> objectKey \<Rightarrow> 'w state \<Rightarrow> (error + deployment) \<times> 'w state" where
  "doGetDeployment c k s =
     (case GetDeployment c k (World s) of
        (r, w) \<Rightarrow> (r, logged (CallGetDeployment k) (errOf r) w s))"

definition doGet :: "'w client \<Rightarrow> kind \<Rightarrow> string \<Rightarrow> 'w state \<Rightarrow> error option \<times> 'w state" where
  "doGet c k n s =
     (case GetObject c k n (World s) of (err, w) \<Rightarrow> (err, logged (CallGet k n) err w s))"

definition doListClusterObjectSets ::
  "'w client \<Rightarrow> (string \<times> string) list \<Rightarrow> 'w state
     \<Rightarrow> (error + clusterObjectSet list) \<times> 'w state" where
  "doListClusterObjectSets c ls s =
     (case ListClusterObjectSets c ls (World s) of
        (r, w) \<Rightarrow> (r, logged (CallList ClusterObjectSetKind ls) (errOf r) w s))"

definition doListClusterObjectDeployments ::
  "'w client \<Rightarrow> (string \<times> string) list \<Rightarrow> 'w state
     \<Rightarrow> (error + clusterObjectDeployment list) \<times> 'w state" where
  "doListClusterObjectDeployments c ls s =
     (case ListClusterObjectDeployments c ls (World s) of
        (r, w) \<Rightarrow> (r, logged (CallList ClusterObjectDeploymentKind ls) (errOf r) w s))"

definition doStatusPatch ::
  "'w client \<Rightarrow> clusterObjectSet \<Rightarrow> 'w state \<Rightarrow> (error + clusterObjectSet) \<times> 'w state" where
  "doStatusPatch c cos s =
     (case StatusPatch c cos (World s) of
        (r, w) \<Rightarrow> (r, logged (CallStatusPatch cos) (errOf r) w s))"

definition doCreate :: "'w client \<Rightarrow> clientObject \<Rightarrow> 'w state \<Rightarrow> error option \<times> 'w state" where
  "doCreate c obj s =
     (case Create c obj (World s) of (err, w) \<Rightarrow> (err, logged (CallCreate obj) err w s))"

definition doDelete :: "'w client \<Rightarrow> clientObject \<Rightarrow> 'w state \<Rightarrow> error option \<times> 'w state" where
  "doDelete c obj s =
     (case Delete c obj (World s) of (err, w) \<Rightarrow> (err, logged (CallDelete obj) err w s))"

definition doUpdate :: "'w client \<Rightarrow> clientObject \<Rightarrow> 'w state \<Rightarrow> error option \<times> 'w state" where
  "doUpdate c obj s =
     (case Update c obj (World s) of (err, w) \<Rightarrow> (err, logged (CallUpdate obj) err w s))"

section \<open>The probes of the backing workload\<close>

text \<open>
  \<open>bootstrapper\<close> of package main (bootstrap.go) and \<open>Bootstrapper\<close> of package
  bootstrap, with the fields the modelled methods use. The second record's fields carry
  a suffix, since both structs name them \<open>client\<close> and \<open>pkoNamespace\<close>.
\<close>

record 'w bootstrapper =
  selfBootstrapImage :: string
  pkoNamespace :: string
  client :: "'w client"

record 'w Bootstrapper =
  client_B :: "'w client"
  pkoNamespace_B :: string

definition packageOperatorDeploymentName :: string where
  "packageOperatorDeploymentName = ''package-operator-manager''"

text \<open>The loop over \<open>deploy.Status.Conditions\<close> in \<open>needsForcedCleanup\<close>.\<close>

fun needsForcedCleanup_conds :: "deploymentCondition list \<Rightarrow> bool" where
  "needsForcedCleanup_conds [] = False"
| "needsForcedCleanup_conds (cond # conds) =
     (if CondType cond = DeploymentAvailable \<and> CondStatus cond = ConditionFalse then True
      else needsForcedCleanup_conds conds)"

definition needsForcedCleanup ::
  "'w bootstrapper \<Rightarrow> 'w state \<Rightarrow> (bool \<times> error option) \<times> 'w state" where
  "needsForcedCleanup b s =
     (case doGetDeployment (client b)
             \<lparr>KeyName = ''package-operator-manager'', KeyNamespace = pkoNamespace b\<rparr> s of
        (r, s1) \<Rightarrow>
          if IsNotFound (errOf r) then ((True, None), s1)
          else (case r of
                  Inl e \<Rightarrow> ((False, Some e), s1)
                | Inr deploy \<Rightarrow> ((needsForcedCleanup_conds (Conditions deploy), None), s1)))"

text \<open>The loop over \<open>deploy.Status.Conditions\<close> in \<open>needsBootstrap\<close>.\<close>

fun needsBootstrap_conds :: "deploymentCondition list \<Rightarrow> bool" where
  "needsBootstrap_conds [] = True"
| "needsBootstrap_conds (cond # conds) =
     (if CondType cond = DeploymentAvailable \<and> CondStatus cond = ConditionTrue then False
      else needsBootstrap_conds conds)"

definition needsBootstrap ::
  "'w Bootstrapper \<Rightarrow> 'w state \<Rightarrow> (bool \<times> error option) \<times> 'w state" where
  "needsBootstrap b s =
     (case doGetDeployment (client_B b)
             \<lparr>KeyName = packageOperatorDeploymentName, KeyNamespace = pkoNamespace_B b\<rparr> s of
        (r, s1) \<Rightarrow>
          if IsNotFound (errOf r) then ((True, None), s1)
          else (case r of
                  Inl e \<Rightarrow> ((False, Some e), s1)
                | Inr deploy \<Rightarrow> ((needsBootstrap_conds (Conditions deploy), None), s1)))"

text \<open>
  A scripted client for concrete runs: the world is the reply that
  \<open>GetDeployment\<close> gives; every other operation succeeds and returns nothing.
\<close>

definition deploymentClient :: "(error + deployment) client" where
  "deploymentClient =
     \<lparr>GetDeployment = (\<lambda>k w. (w, w)),
      GetObject = (\<lambda>k n w. (Some NotFound, w)),
      ListClusterObjectSets = (\<lambda>ls w. (Inr [], w)),
      ListClusterObjectDeployments = (\<lambda>ls w. (Inr [], w)),
      StatusPatch = (\<lambda>cos w. (Inr cos, w)),
      Create = (\<lambda>obj w. (None, w)),
      Delete = (\<lambda>obj w. (None, w)),
      Update = (\<lambda>obj w. (None, w))\<rparr>"

section \<open>The forced cleanup cascade (bootstrap.go)\<close>

definition packageOperatorClusterPackageName :: string where
  "packageOperatorClusterPackageName = ''package-operator''"

text \<open>What \<open>forcedCleanup\<close> reads of an object through \<open>client.Object\<close>.\<close>

fun objName :: "clientObject \<Rightarrow> string" where
  "objName (ClusterPackageObj p) = Name p"
| "objName (ClusterObjectDeploymentObj d) = Name d"
| "objName (ClusterObjectSetObj cos) = Name cos"
| "objName (UnstructuredObj u) = UName u"

fun objFinalizers :: "clientObject \<Rightarrow> string list" where
  "objFinalizers (ClusterPackageObj p) = Finalizers p"
| "objFinalizers (ClusterObjectDeploymentObj d) = Finalizers d"
| "objFinalizers (ClusterObjectSetObj cos) = Finalizers cos"
| "objFinalizers (UnstructuredObj u) = []"

fun setFinalizers :: "string list \<Rightarrow> clientObject \<Rightarrow> clientObject" where
  "setFinalizers fs (ClusterPackageObj p) = ClusterPackageObj (p\<lparr>Finalizers := fs\<rparr>)"
| "setFinalizers fs (ClusterObjectDeploymentObj d) =
     ClusterObjectDeploymentObj (d\<lparr>Finalizers := fs\<rparr>)"
| "setFinalizers fs (ClusterObjectSetObj cos) = ClusterObjectSetObj (cos\<lparr>Finalizers := fs\<rparr>)"
| "setFinalizers fs (UnstructuredObj u) = UnstructuredObj u"

fun kindOf :: "clientObject \<Rightarrow> kind" where
  "kindOf (ClusterPackageObj p) = ClusterPackageKind"
| "kindOf (ClusterObjectDeploymentObj d) = ClusterObjectDeploymentKind"
| "kindOf (ClusterObjectSetObj cos) = ClusterObjectSetKind"
| "kindOf (UnstructuredObj u) = CustomResourceDefinitionKind"

fun kindName :: "kind \<Rightarrow> string" where
  "kindName ClusterPackageKind = ''ClusterPackage''"
| "kindName ClusterObjectDeploymentKind = ''ClusterObjectDeployment''"
| "kindName ClusterObjectSetKind = ''ClusterObjectSet''"
| "kindName DeploymentKind = ''Deployment''"
| "kindName CustomResourceDefinitionKind = ''CustomResourceDefinition''"

text \<open>
  The block that \<open>forcedCleanup\<close> writes out three times, for the ClusterPackage, for
  every ClusterObjectDeployment and for every ClusterObjectSet; the three copies differ
  in the kind named by the error messages only. Delete the object; if its in-memory
  finalizer list is not empty, empty it and send an Update; then Get the object and
  fail unless the Get reports NotFound. The \<open>log.Info\<close> calls are left out.
\<close>

definition deleteStripVerify ::
  "'w client \<Rightarrow> clientObject \<Rightarrow> 'w state \<Rightarrow> error option \<times> 'w state" where
  "deleteStripVerify c obj s =
     (case doDelete c obj s of
        (Some e, s1) \<Rightarrow>
          (Some (Wrapped (''deleting stuck PackageOperator '' @ kindName (kindOf obj)) e), s1)
      | (None, s1) \<Rightarrow>
          (case (if length (objFinalizers obj) > 0 then doUpdate c (setFinalizers [] obj) s1
                 else (None, s1)) of
             (Some e, s2) \<Rightarrow>
               (Some (Wrapped (''releasing finalizers on stuck PackageOperator ''
                                 @ kindName (kindOf obj)) e), s2)
           | (None, s2) \<Rightarrow>
               (case doGet c (kindOf obj) (objName obj) s2 of
                  (err, s3) \<Rightarrow>
                    if \<not> IsNotFound err
                    then (Some (Errorf (''ensuring '' @ kindName (kindOf obj) @ '' is gone'') err),
                          s3)
                    else (None, s3))))"

text \<open>The two \<open>for i := range list.Items\<close> loops: the first failing object returns.\<close>

fun forcedCleanup_loop ::
  "'w client \<Rightarrow> clientObject list \<Rightarrow> 'w state \<Rightarrow> error option \<times> 'w state" where
  "forcedCleanup_loop c [] s = (None, s)"
| "forcedCleanup_loop c (obj # objs) s =
     (case deleteStripVerify c obj s of
        (Some e, s1) \<Rightarrow> (Some e, s1)
      | (None, s1) \<Rightarrow> forcedCleanup_loop c objs s1)"

definition forcedCleanup_labels :: "(string \<times> string) list" where
  "forcedCleanup_labels =
     [(''package-operator.run/instance'', packageOperatorClusterPackageName),
      (''package-operator.run/package'', packageOperatorClusterPackageName)]"

definition forcedCleanup ::
  "'w bootstrapper \<Rightarrow> clusterPackage \<Rightarrow> 'w state \<Rightarrow> error option \<times> 'w state" where
  "forcedCleanup b packageOperatorPackage s =
     (case deleteStripVerify (client b) (ClusterPackageObj packageOperatorPackage) s of
        (Some e, s1) \<Rightarrow> (Some e, s1)
      | (None, s1) \<Rightarrow>
     (case doListClusterObjectDeployments (client b) forcedCleanup_labels s1 of
        (Inl e, s2) \<Rightarrow>
          (Some (Wrapped ''listing stuck PackageOperator ClusterObjectDeployments'' e), s2)
      | (Inr clusterObjectDeploymentList, s2) \<Rightarrow>
     (case forcedCleanup_loop (client b)
             (map ClusterObjectDeploymentObj clusterObjectDeploymentList) s2 of
        (Some e, s3) \<Rightarrow> (Some e, s3)
      | (None, s3) \<Rightarrow>
     (case doListClusterObjectSets (client b) forcedCleanup_labels s3 of
        (Inl e, s4) \<Rightarrow> (Some (Wrapped ''listing stuck PackageOperator ClusterObjectSets'' e), s4)
      | (Inr clusterObjectSetList, s4) \<Rightarrow>
          forcedCleanup_loop (client b) (map ClusterObjectSetObj clusterObjectSetList) s4))))"

definition nukeIfNeeded ::
  "'w bootstrapper \<Rightarrow> clusterPackage \<Rightarrow> 'w state \<Rightarrow> error option \<times> 'w state" where
  "nukeIfNeeded b packageOperatorPackage s =
     (case needsForcedCleanup b s of
        ((needsNuke, Some e), s1) \<Rightarrow> (Some (Wrapped ''check for forced cleanup'' e), s1)
      | ((needsNuke, None), s1) \<Rightarrow>
          if needsNuke
          then (case forcedCleanup b packageOperatorPackage s1 of
                  (Some e, s2) \<Rightarrow> (Some (Wrapped ''force cleanup'' e), s2)
                | (None, s2) \<Rightarrow> (None, s2))
          else (None, s1))"

section \<open>An in-memory store as client\<close>

text \<open>
  The cluster store is an external collaborator of the code. For concrete runs the
  client parameter is instantiated with a small in-memory store that follows what the
  specification says of it: an operation on an object that is not stored fails with
  NotFound, a Create of a stored object fails with AlreadyExists, and an object with
  finalizers stays stored after a Delete (marked with a deletion timestamp) until an
  Update empties its finalizer list.
\<close>

record store =
  Stored :: "clientObject list"
  Workload :: "error + deployment"

fun objDeletionTimestamp :: "clientObject \<Rightarrow> nat option" where
  "objDeletionTimestamp (ClusterPackageObj p) = DeletionTimestamp p"
| "objDeletionTimestamp (ClusterObjectDeploymentObj d) = DeletionTimestamp d"
| "objDeletionTimestamp (ClusterObjectSetObj cos) = DeletionTimestamp cos"
| "objDeletionTimestamp (UnstructuredObj u) = None"

fun setDeletionTimestamp :: "nat option \<Rightarrow> clientObject \<Rightarrow> clientObject" where
  "setDeletionTimestamp t (ClusterPackageObj p) = ClusterPackageObj (p\<lparr>DeletionTimestamp := t\<rparr>)"
| "setDeletionTimestamp t (ClusterObjectDeploymentObj d) =
     ClusterObjectDeploymentObj (d\<lparr>DeletionTimestamp := t\<rparr>)"
| "setDeletionTimestamp t (ClusterObjectSetObj cos) =
     ClusterObjectSetObj (cos\<lparr>DeletionTimestamp := t\<rparr>)"
| "setDeletionTimestamp t (UnstructuredObj u) = UnstructuredObj u"

definition sameObject :: "clientObject \<Rightarrow> clientObject \<Rightarrow> bool" where
  "sameObject a b = (kindOf a = kindOf b \<and> objName a = objName b)"

definition storeDelete :: "clientObject \<Rightarrow> store \<Rightarrow> error option \<times> store" where
  "storeDelete obj w =
     (case find (sameObject obj) (Stored w) of
        None \<Rightarrow> (Some NotFound, w)
      | Some old \<Rightarrow>
          if objFinalizers old = []
          then (None, w\<lparr>Stored := filter (\<lambda>x. \<not> sameObject obj x) (Stored w)\<rparr>)
          else (None, w\<lparr>Stored := map (\<lambda>x. if sameObject obj x
                                               then setDeletionTimestamp (Some 1) x else x)
                                        (Stored w)\<rparr>))"

definition storeUpdate :: "clientObject \<Rightarrow> store \<Rightarrow> error option \<times> store" where
  "storeUpdate obj w =
     (case find (sameObject obj) (Stored w) of
        None \<Rightarrow> (Some NotFound, w)
      | Some old \<Rightarrow>
          if objDeletionTimestamp old \<noteq> None \<and> objFinalizers obj = []
          then (None, w\<lparr>Stored := filter (\<lambda>x. \<not> sameObject obj x) (Stored w)\<rparr>)
          else (None, w\<lparr>Stored := map (\<lambda>x. if sameObject obj x
                                               then setDeletionTimestamp (objDeletionTimestamp old) obj
                                               else x)
                                        (Stored w)\<rparr>))"

definition storeCreate :: "clientObject \<Rightarrow> store \<Rightarrow> error option \<times> store" where
  "storeCreate obj w =
     (if list_ex (sameObject obj) (Stored w) then (Some AlreadyExists, w)
      else (None, w\<lparr>Stored := Stored w @ [obj]\<rparr>))"

definition storeGetObject :: "kind \<Rightarrow> string \<Rightarrow> store \<Rightarrow> error option \<times> store" where
  "storeGetObject k n w =
     (if list_ex (\<lambda>x. kindOf x = k \<and> objName x = n) (Stored w) then (None, w)
      else (Some NotFound, w))"

fun storedClusterObjectSets :: "clientObject list \<Rightarrow> clusterObjectSet list" where
  "storedClusterObjectSets [] = []"
| "storedClusterObjectSets (ClusterObjectSetObj cos # xs) = cos # storedClusterObjectSets xs"
| "storedClusterObjectSets (x # xs) = storedClusterObjectSets xs"

fun storedClusterObjectDeployments :: "clientObject list \<Rightarrow> clusterObjectDeployment list" where
  "storedClusterObjectDeployments [] = []"
| "storedClusterObjectDeployments (ClusterObjectDeploymentObj d # xs) =
     d # storedClusterObjectDeployments xs"
| "storedClusterObjectDeployments (x # xs) = storedClusterObjectDeployments xs"

definition storeStatusPatch ::
  "clusterObjectSet \<Rightarrow> store \<Rightarrow> (error + clusterObjectSet) \<times> store" where
  "storeStatusPatch cos w =
     (if list_ex (sameObject (ClusterObjectSetObj cos)) (Stored w)
      then (Inr cos,
            w\<lparr>Stored := map (\<lambda>x. case x of
                                     ClusterObjectSetObj old \<Rightarrow>
                                       if Name old = Name cos
                                       then ClusterObjectSetObj (old\<lparr>Revision := Revision cos\<rparr>)
                                       else x
                                   | _ \<Rightarrow> x)
                             (Stored w)\<rparr>)
      else (Inl NotFound, w))"

definition storeClient :: "store client" where
  "storeClient =
     \<lparr>GetDeployment = (\<lambda>k w. (Workload w, w)),
      GetObject = storeGetObject,
      ListClusterObjectSets = (\<lambda>ls w. (Inr (storedClusterObjectSets (Stored w)), w)),
      ListClusterObjectDeployments =
        (\<lambda>ls w. (Inr (storedClusterObjectDeployments (Stored w)), w)),
      StatusPatch = storeStatusPatch,
      Create = storeCreate,
      Delete = storeDelete,
      Update = storeUpdate\<rparr>"

definition stuckPackage :: clusterPackage where
  "stuckPackage =
     \<lparr>Name = ''package-operator'', Finalizers = [''f1'', ''f2''], DeletionTimestamp = None,
      Image = ''img'', Config = None\<rparr>"

definition stuckStore :: store where
  "stuckStore =
     \<lparr>Stored =
        [ClusterPackageObj stuckPackage,
         ClusterObjectDeploymentObj
           \<lparr>Name = ''package-operator'', Finalizers = [''f'', ''g''], DeletionTimestamp = None,
            TemplateHash = ''h''\<rparr>,
         ClusterObjectSetObj
           \<lparr>Name = ''package-operator-1'', Finalizers = [], DeletionTimestamp = None,
            Previous = [], Revision = 1, Phase = ''Available''\<rparr>],
      Workload = Inr \<lparr>Conditions = [\<lparr>CondType = ''Available'', CondStatus = ''False''\<rparr>]\<rparr>\<rparr>"

text \<open>A ClusterPackage without finalizers, and a store that holds nothing else.\<close>

definition plainPackage :: clusterPackage where
  "plainPackage =
     \<lparr>Name = ''package-operator'', Finalizers = [], DeletionTimestamp = None,
      Image = ''img'', Config = None\<rparr>"

definition plainStore :: store where
  "plainStore =
     \<lparr>Stored = [ClusterPackageObj plainPackage],
      Workload = Inr \<lparr>Conditions = [\<lparr>CondType = ''Available'', CondStatus = ''False''\<rparr>]\<rparr>\<rparr>"

definition storeBootstrapper :: "store bootstrapper" where
  "storeBootstrapper =
     \<lparr>selfBootstrapImage = ''img'', pkoNamespace = ''package-operator-system'',
      client = storeClient\<rparr>"

text \<open>
  The same store behind a client whose Update answers Conflict, as a store that
  versions its objects answers an Update that carries an object as it was read before
  the Delete.
\<close>

definition conflictBootstrapper :: "store bootstrapper" where
  "conflictBootstrapper =
     storeBootstrapper\<lparr>client := storeClient\<lparr>Update := (\<lambda>obj w. (Some Conflict, w))\<rparr>\<rparr>"

section \<open>What a run of the cascade looks like\<close>

text \<open>
  A call of the cascade went well when it returned no error, and for the Get that
  checks that an object is gone, when it reported NotFound.
\<close>

fun cleanupCallOk :: "call \<times> error option \<Rightarrow> bool" where
  "cleanupCallOk (CallGet k n, err) = IsNotFound err"
| "cleanupCallOk (cl, err) = (err = None)"

text \<open>
  A result and the calls made for it: on success every call went well; on an error
  the last call is the one that did not, every call before it went well, and the
  error wraps what that call returned.
\<close>

definition abortsAtFirstFailure :: "error option \<Rightarrow> (call \<times> error option) list \<Rightarrow> bool" where
  "abortsAtFirstFailure res new =
     (case res of
        None \<Rightarrow> list_all cleanupCallOk new
      | Some e \<Rightarrow>
          new \<noteq> [] \<and> list_all cleanupCallOk (butlast new) \<and> \<not> cleanupCallOk (last new)
          \<and> (\<exists>msg. e = Errorf msg (snd (last new))))"

text \<open>
  The calls of the block for one object, in their order, given what its Delete, its
  Update and its Get returned: the Delete; after a Delete that succeeded, the Update
  with the finalizers emptied when the object has finalizers, and none when it has not;
  then the Get of the object, unless the Update failed.
\<close>

definition blockCalls ::
  "clientObject \<Rightarrow> error option \<Rightarrow> error option \<Rightarrow> error option \<Rightarrow> (call \<times> error option) list"
  where
  "blockCalls obj e1 e2 e3 =
     (CallDelete obj, e1)
     # (if e1 = None
        then (if objFinalizers obj \<noteq> [] then [(CallUpdate (setFinalizers [] obj), e2)] else [])
             @ (if objFinalizers obj = [] \<or> e2 = None
                then [(CallGet (kindOf obj) (objName obj), e3)] else [])
        else [])"

text \<open>
  The calls of a run are made of segments, each a single list call or the block of
  one object: no Update and no Get stands anywhere else.
\<close>

definition cascadeSegment :: "(call \<times> error option) list \<Rightarrow> bool" where
  "cascadeSegment seg =
     ((\<exists>k ls e. seg = [(CallList k ls, e)]) \<or> (\<exists>obj e1 e2 e3. seg = blockCalls obj e1 e2 e3))"

definition cascadeCalls :: "(call \<times> error option) list \<Rightarrow> bool" where
  "cascadeCalls new = (\<exists>segs. new = concat segs \<and> list_all cascadeSegment segs)"

text \<open>The calls that a run added to the trace, and the objects it sent a Delete for.\<close>

definition newCalls :: "'w state \<Rightarrow> 'w state \<Rightarrow> (call \<times> error option) list" where
  "newCalls s s' = drop (length (Trace s)) (Trace s')"

fun deletedObjects :: "(call \<times> error option) list \<Rightarrow> clientObject list" where
  "deletedObjects [] = []"
| "deletedObjects ((CallDelete obj, err) # rest) = obj # deletedObjects rest"
| "deletedObjects (other # rest) = deletedObjects rest"

text \<open>A step from \<open>s\<close> to \<open>s'\<close> with result \<open>res\<close> that only added calls of that shape.\<close>

definition cleanupRun :: "'w state \<Rightarrow> 'w state \<Rightarrow> error option \<Rightarrow> bool" where
  "cleanupRun s s' res =
     (\<exists>new. Trace s' = Trace s @ new \<and> abortsAtFirstFailure res new \<and> cascadeCalls new)"

text \<open>
  For the proofs, the part of \<open>forcedCleanup\<close> that follows the block for the
  ClusterPackage: the two lists and their loops.
\<close>

definition forcedCleanup_owned :: "'w bootstrapper \<Rightarrow> 'w state \<Rightarrow> error option \<times> 'w state" where
  "forcedCleanup_owned b s1 =
     (case doListClusterObjectDeployments (client b) forcedCleanup_labels s1 of
        (Inl e, s2) \<Rightarrow>
          (Some (Wrapped ''listing stuck PackageOperator ClusterObjectDeployments'' e), s2)
      | (Inr clusterObjectDeploymentList, s2) \<Rightarrow>
     (case forcedCleanup_loop (client b)
             (map ClusterObjectDeploymentObj clusterObjectDeploymentList) s2 of
        (Some e, s3) \<Rightarrow> (Some e, s3)
      | (None, s3) \<Rightarrow>
     (case doListClusterObjectSets (client b) forcedCleanup_labels s3 of
        (Inl e, s4) \<Rightarrow> (Some (Wrapped ''listing stuck PackageOperator ClusterObjectSets'' e), s4)
      | (Inr clusterObjectSetList, s4) \<Rightarrow>
          forcedCleanup_loop (client b) (map ClusterObjectSetObj clusterObjectSetList) s4)))"

definition deploymentBootstrapper :: "(error + deployment) bootstrapper" where
  "deploymentBootstrapper =
     \<lparr>selfBootstrapImage = ''img'', pkoNamespace = ''package-operator-system'',
      client = deploymentClient\<rparr>"

section \<open>Self-install: the ClusterPackage and the CRDs (bootstrap.go)\<close>

text \<open>
  \<open>getPKOConfigFromEnvironment\<close>: the value of the environment variable
  \<open>PKO_CONFIG\<close> is a parameter (empty when the variable is not set).
\<close>

definition getPKOConfigFromEnvironment :: "string \<Rightarrow> string option" where
  "getPKOConfigFromEnvironment pkoConfig =
     (if length pkoConfig > 0 then Some pkoConfig else None)"

text \<open>
  \<open>createPKOPackage\<close>. The reply that Create decodes into the object on success is
  not modelled: the function returns the object as it built it.
\<close>

definition createPKOPackage ::
  "'w bootstrapper \<Rightarrow> string \<Rightarrow> 'w state \<Rightarrow> (error + clusterPackage) \<times> 'w state" where
  "createPKOPackage b pkoConfig s =
     (let packageOperatorPackage =
            \<lparr>Name = packageOperatorClusterPackageName, Finalizers = [],
             DeletionTimestamp = None,
             Image = selfBootstrapImage b,
             Config = getPKOConfigFromEnvironment pkoConfig\<rparr>
      in case doCreate (client b) (ClusterPackageObj packageOperatorPackage) s of
           (err, s1) \<Rightarrow>
             if err \<noteq> None \<and> \<not> IsAlreadyExists err
             then (Inl (Errorf ''creating Package Operator ClusterPackage'' err), s1)
             else (Inr packageOperatorPackage, s1))"

text \<open>\<open>labels[key] = value\<close> on a label map kept as an association list.\<close>

fun setLabel :: "string \<Rightarrow> string \<Rightarrow> (string \<times> string) list \<Rightarrow> (string \<times> string) list" where
  "setLabel k v [] = [(k, v)]"
| "setLabel k v ((k', v') # ls) =
     (if k' = k then (k, v) # ls else (k', v') # setLabel k v ls)"

text \<open>
  The body of the loop of \<open>ensureCRDs\<close> before the Create: the cache label is set on
  the CRD, on a fresh map when it has none. \<open>controllers.DynamicCacheLabel\<close> is
  declared outside the given sources and is the parameter \<open>dynamicCacheLabel\<close>.
\<close>

definition withCacheLabel :: "string \<Rightarrow> unstructured \<Rightarrow> unstructured" where
  "withCacheLabel dynamicCacheLabel crd =
     (let labels = (case ULabels crd of None \<Rightarrow> [] | Some ls \<Rightarrow> ls)
      in crd\<lparr>ULabels := Some (setLabel dynamicCacheLabel ''True'' labels)\<rparr>)"

fun ensureCRDs ::
  "'w bootstrapper \<Rightarrow> string \<Rightarrow> unstructured list \<Rightarrow> 'w state \<Rightarrow> error option \<times> 'w state" where
  "ensureCRDs b dynamicCacheLabel [] s = (None, s)"
| "ensureCRDs b dynamicCacheLabel (crd # crds) s =
     (case doCreate (client b) (UnstructuredObj (withCacheLabel dynamicCacheLabel crd)) s of
        (err, s1) \<Rightarrow>
          if err \<noteq> None \<and> \<not> IsAlreadyExists err then (err, s1)
          else ensureCRDs b dynamicCacheLabel crds s1)"

text \<open>
  A scripted client for concrete runs of the creates: the world is the list of replies
  that Create gives, one per call, and nil once the list is used up.
\<close>

definition createClient :: "error option list client" where
  "createClient =
     \<lparr>GetDeployment = (\<lambda>k w. (Inl NotFound, w)),
      GetObject = (\<lambda>k n w. (Some NotFound, w)),
      ListClusterObjectSets = (\<lambda>ls w. (Inr [], w)),
      ListClusterObjectDeployments = (\<lambda>ls w. (Inr [], w)),
      StatusPatch = (\<lambda>cos w. (Inr cos, w)),
      Create = (\<lambda>obj w. case w of [] \<Rightarrow> (None, []) | r # rs \<Rightarrow> (r, rs)),
      Delete = (\<lambda>obj w. (None, w)),
      Update = (\<lambda>obj w. (None, w))\<rparr>"

definition createBootstrapper :: "error option list bootstrapper" where
  "createBootstrapper =
     \<lparr>selfBootstrapImage = ''quay.io/package-operator/package-operator-package:v1'',
      pkoNamespace = ''package-operator-system'',
      client = createClient\<rparr>"

text \<open>A Create went well, for the self-install, when it returned nil or AlreadyExists.\<close>

definition createAbsorbed :: "call \<times> error option \<Rightarrow> bool" where
  "createAbsorbed ev = (snd ev = None \<or> IsAlreadyExists (snd ev))"

section \<open>Revision repair (bootstrap.go)\<close>

text \<open>
  A run-time panic of Go ends the program; it is a result of its own, apart from the
  returned errors.
\<close>

datatype panic = NilPointerDereference

text \<open>
  \<open>cosByName\<close> maps a name to a pointer \<open>&Items[i]\<close> into the listed items. The
  pointer is modelled as the index \<open>i\<close>, and the items as the memory it points into:
  a write to \<open>Items[i]\<close> is seen by every later read through the map. The first loop
  of \<open>fixMissingRevisionNumbers\<close> fills the map in list order, so a later item of the
  same name replaces an earlier one.
\<close>

fun cosByName_from ::
  "clusterObjectSet list \<Rightarrow> nat \<Rightarrow> (string \<rightharpoonup> nat) \<Rightarrow> (string \<rightharpoonup> nat)" where
  "cosByName_from [] i m = m"
| "cosByName_from (cos # rest) i m = cosByName_from rest (Suc i) (m(Name cos \<mapsto> i))"

definition cosByName :: "clusterObjectSet list \<Rightarrow> (string \<rightharpoonup> nat)" where
  "cosByName items = cosByName_from items 0 Map.empty"

text \<open>
  \<open>highestRevisionNumber\<close>. \<open>cosByName[prev.Name]\<close> is the nil pointer when the
  name is not in the map, and reading \<open>.Status.Revision\<close> through it panics. The
  comparison is the signed one of \<open>int64\<close>. An index of the map always lies within
  the items; the read is guarded all the same, so that the model is total.
\<close>

fun highestRevisionNumber_loop ::
  "(string \<rightharpoonup> nat) \<Rightarrow> clusterObjectSet list \<Rightarrow> string list \<Rightarrow> 64 word \<Rightarrow> panic + 64 word" where
  "highestRevisionNumber_loop m items [] maxRevision = Inr maxRevision"
| "highestRevisionNumber_loop m items (prev # prevs) maxRevision =
     (case m prev of
        None \<Rightarrow> Inl NilPointerDereference
      | Some i \<Rightarrow>
          if i < length items
          then (if maxRevision <s Revision (items ! i)
                then highestRevisionNumber_loop m items prevs (Revision (items ! i))
                else highestRevisionNumber_loop m items prevs maxRevision)
          else Inl NilPointerDereference)"

definition highestRevisionNumber ::
  "(string \<rightharpoonup> nat) \<Rightarrow> clusterObjectSet list \<Rightarrow> string list \<Rightarrow> panic + 64 word" where
  "highestRevisionNumber m items prevs = highestRevisionNumber_loop m items prevs 0"

text \<open>The condition under which the second loop takes an item to be stuck.\<close>

definition looksStuck :: "clusterObjectSet \<Rightarrow> bool" where
  "looksStuck cos =
     (Revision cos = 0 \<and> length (Previous cos) > 0 \<and> Phase cos = ObjectSetStatusPhasePending)"

text \<open>
  The second loop of \<open>fixMissingRevisionNumbers\<close>, over the indices of the items.
  The new revision is written to \<open>Items[i]\<close> before the patch is sent; on success the
  client decodes the reply of the server into \<open>Items[i]\<close>. Beside the result the
  model returns the items as the loop left them.
\<close>

fun fixMissingRevisionNumbers_loop ::
  "'w client \<Rightarrow> (string \<rightharpoonup> nat) \<Rightarrow> nat list \<Rightarrow> clusterObjectSet list \<Rightarrow> 'w state
     \<Rightarrow> (panic + error option) \<times> clusterObjectSet list \<times> 'w state" where
  "fixMissingRevisionNumbers_loop c m [] items s = (Inr None, items, s)"
| "fixMissingRevisionNumbers_loop c m (i # is) items s =
     (if looksStuck (items ! i)
      then (case highestRevisionNumber m items (Previous (items ! i)) of
              Inl p \<Rightarrow> (Inl p, items, s)
            | Inr h \<Rightarrow>
                (case doStatusPatch c ((items ! i)\<lparr>Revision := h + 1\<rparr>) s of
                   (Inl e, s1) \<Rightarrow>
                     (Inr (Some (Wrapped ''patch for missing revision number'' e)),
                      items[i := (items ! i)\<lparr>Revision := h + 1\<rparr>], s1)
                 | (Inr reply, s1) \<Rightarrow>
                     fixMissingRevisionNumbers_loop c m is (items[i := reply]) s1))
      else fixMissingRevisionNumbers_loop c m is items s)"

definition fixMissingRevisionNumbers ::
  "'w bootstrapper \<Rightarrow> 'w state \<Rightarrow> (panic + error option) \<times> clusterObjectSet list \<times> 'w state" where
  "fixMissingRevisionNumbers b s =
     (case doListClusterObjectSets (client b)
             [(''package-operator.run/instance'', ''package-operator'')] s of
        (Inl e, s1) \<Rightarrow> (Inr (Some (Wrapped ''list PKO ClusterObjectSet'' e)), [], s1)
      | (Inr items, s1) \<Rightarrow>
          fixMissingRevisionNumbers_loop (client b) (cosByName items) [0..<length items]
            items s1)"

text \<open>
  A scripted client for concrete runs of the repair: the world is the list that
  \<open>ListClusterObjectSets\<close> returns, and a status patch is answered with the object as
  it was sent.
\<close>

definition snapshotClient :: "clusterObjectSet list client" where
  "snapshotClient =
     \<lparr>GetDeployment = (\<lambda>k w. (Inl NotFound, w)),
      GetObject = (\<lambda>k n w. (Some NotFound, w)),
      ListClusterObjectSets = (\<lambda>ls w. (Inr w, w)),
      ListClusterObjectDeployments = (\<lambda>ls w. (Inr [], w)),
      StatusPatch = (\<lambda>cos w. (Inr cos, w)),
      Create = (\<lambda>obj w. (None, w)),
      Delete = (\<lambda>obj w. (None, w)),
      Update = (\<lambda>obj w. (None, w))\<rparr>"

definition snapshotBootstrapper :: "clusterObjectSet list bootstrapper" where
  "snapshotBootstrapper =
     \<lparr>selfBootstrapImage = ''img'', pkoNamespace = ''package-operator-system'',
      client = snapshotClient\<rparr>"

definition objectSet :: "string \<Rightarrow> string list \<Rightarrow> 64 word \<Rightarrow> string \<Rightarrow> clusterObjectSet" where
  "objectSet n prevs r ph =
     \<lparr>Name = n, Finalizers = [], DeletionTimestamp = None,
      Previous = prevs, Revision = r, Phase = ph\<rparr>"

text \<open>
  For the proofs: what one round of the second loop does to the items when the patch
  is answered with the object as sent.
\<close>

definition repairOne ::
  "(string \<rightharpoonup> nat) \<Rightarrow> nat \<Rightarrow> clusterObjectSet list \<Rightarrow> clusterObjectSet list" where
  "repairOne m i items =
     (if looksStuck (items ! i)
      then (case highestRevisionNumber m items (Previous (items ! i)) of
              Inl p \<Rightarrow> items
            | Inr h \<Rightarrow> items[i := (items ! i)\<lparr>Revision := h + 1\<rparr>])
      else items)"

section \<open>The generic package controller (package_controller.go)\<close>

definition loaderJobFinalizer :: string where
  "loaderJobFinalizer = ''package-operator.run/loader-job''"

text \<open>
  A Package or ClusterPackage behind \<open>adapters.GenericPackageAccessor\<close>: its object
  meta, its conditions and its status phase.
\<close>

record genericPackage = objectMeta +
  PackageConditions :: "(string \<times> string) list"
  PackagePhase :: string

text \<open>\<open>ctrl.Result\<close>; \<open>IsZero\<close> holds of the zero value only.\<close>

record result =
  Requeue :: bool
  RequeueAfter :: int

definition zeroResult :: result where
  "zeroResult = \<lparr>Requeue = False, RequeueAfter = 0\<rparr>"

definition IsZero :: "result \<Rightarrow> bool" where
  "IsZero res = (res = zeroResult)"

text \<open>\<open>GetDeletionTimestamp().IsZero()\<close>: the nil pointer and the zero instant.\<close>

definition timeIsZero :: "nat option \<Rightarrow> bool" where
  "timeIsZero t = (case t of None \<Rightarrow> True | Some ticks \<Rightarrow> ticks = 0)"

text \<open>\<open>client.IgnoreNotFound\<close>.\<close>

definition IgnoreNotFound :: "error option \<Rightarrow> error option" where
  "IgnoreNotFound err = (if IsNotFound err then None else err)"

text \<open>
  The controller with what \<open>Reconcile\<close> uses of it. The client operations, the
  sub-reconcilers, the metrics recorder (a nil-able interface) and \<open>UpdatePhase\<close> of
  the accessor are parameters over a world \<open>'w\<close>. A sub-reconciler gets the package,
  may change it and the world, and returns a result and an error. Update and the status
  update return the reply that the client decodes into the object.
\<close>

record 'w genericPackageController =
  clientGet :: "string \<Rightarrow> 'w \<Rightarrow> (error + genericPackage) \<times> 'w"
  clientUpdate :: "genericPackage \<Rightarrow> 'w \<Rightarrow> (error + genericPackage) \<times> 'w"
  clientStatusUpdate :: "genericPackage \<Rightarrow> 'w \<Rightarrow> (error + genericPackage) \<times> 'w"
  clientPatch :: "genericPackage \<Rightarrow> 'w \<Rightarrow> error option \<times> 'w"
  reconciler ::
    "(genericPackage \<Rightarrow> 'w \<Rightarrow> ((result \<times> error option) \<times> genericPackage) \<times> 'w) list"
  recorder :: "(genericPackage \<Rightarrow> 'w \<Rightarrow> 'w) option"
  UpdatePhase :: "genericPackage \<Rightarrow> genericPackage"

text \<open>The calls that a reconcile makes, each logged with the error it returned.\<close>

datatype reconcileCall =
    PackageGet string
  | SubReconcile nat
  | StatusUpdate genericPackage
  | FinalizerRemoval genericPackage string
  | PackageUpdate genericPackage
  | RecordPackageMetrics genericPackage

record 'w reconcileState =
  RWorld :: 'w
  RTrace :: "(reconcileCall \<times> error option) list"

definition rlogged ::
  "reconcileCall \<Rightarrow> error option \<Rightarrow> 'w \<Rightarrow> 'w reconcileState \<Rightarrow> 'w reconcileState" where
  "rlogged cl err w s = \<lparr>RWorld = w, RTrace = RTrace s @ [(cl, err)]\<rparr>"

text \<open>
  Modelled from the spec: \<open>controllers.RemoveFinalizer\<close> is called by
  \<open>handleDeletion\<close> and is not among the given sources. The specification says of the
  deletion path that it removes a legacy finalizer token if present, and the call passes
  the client, the object and the token and returns an error. The model removes the token
  from the finalizer list of the object when it is there and then sends the object
  through \<open>clientPatch\<close>, whose error it returns; when the token is not there it does
  nothing.
\<close>

definition RemoveFinalizer ::
  "'w genericPackageController \<Rightarrow> genericPackage \<Rightarrow> string \<Rightarrow> 'w
     \<Rightarrow> (error option \<times> genericPackage) \<times> 'w" where
  "RemoveFinalizer c pkg finalizer w =
     (if finalizer \<in> set (Finalizers pkg)
      then (let pkg1 = pkg\<lparr>Finalizers := removeAll finalizer (Finalizers pkg)\<rparr>
            in case clientPatch c pkg1 w of (err, w1) \<Rightarrow> ((err, pkg1), w1))
      else ((None, pkg), w))"

text \<open>
  \<open>handleDeletion\<close>: the call of \<open>RemoveFinalizer\<close> with the loader-job finalizer,
  whose error is returned as it is, then the Update of the object, whose error is
  returned as it is.
\<close>

definition handleDeletion ::
  "'w genericPackageController \<Rightarrow> genericPackage \<Rightarrow> 'w reconcileState
     \<Rightarrow> error option \<times> genericPackage \<times> 'w reconcileState" where
  "handleDeletion c pkg s =
     (case RemoveFinalizer c pkg loaderJobFinalizer (RWorld s) of
        ((Some e, pkg1), w) \<Rightarrow>
          (Some e, pkg1, rlogged (FinalizerRemoval pkg loaderJobFinalizer) (Some e) w s)
      | ((None, pkg1), w) \<Rightarrow>
          (let s1 = rlogged (FinalizerRemoval pkg loaderJobFinalizer) None w s
           in case clientUpdate c pkg1 (RWorld s1) of
                (Inl e, w2) \<Rightarrow> (Some e, pkg1, rlogged (PackageUpdate pkg1) (Some e) w2 s1)
              | (Inr reply, w2) \<Rightarrow> (None, reply, rlogged (PackageUpdate pkg1) None w2 s1)))"

definition updateStatus ::
  "'w genericPackageController \<Rightarrow> genericPackage \<Rightarrow> 'w reconcileState
     \<Rightarrow> error option \<times> genericPackage \<times> 'w reconcileState" where
  "updateStatus c pkg s =
     (let pkg1 = UpdatePhase c pkg
      in case clientStatusUpdate c pkg1 (RWorld s) of
           (Inl e, w) \<Rightarrow>
             (Some (Wrapped ''updating Package status'' e), pkg1,
              rlogged (StatusUpdate pkg1) (Some e) w s)
         | (Inr reply, w) \<Rightarrow> (None, reply, rlogged (StatusUpdate pkg1) None w s))"

text \<open>
  The loop over \<open>c.reconciler\<close>, from the sub-reconciler with index \<open>i\<close> on. It
  breaks with the values of the sub-reconciler that returned an error or a result that
  is not zero; when it runs to the end, \<open>res\<close> is zero and \<open>err\<close> is nil (their
  initial values, and the only values with which the loop goes on).
\<close>

fun reconcilerChain ::
  "(genericPackage \<Rightarrow> 'w \<Rightarrow> ((result \<times> error option) \<times> genericPackage) \<times> 'w) list
     \<Rightarrow> nat \<Rightarrow> genericPackage \<Rightarrow> 'w reconcileState
     \<Rightarrow> (result \<times> error option) \<times> genericPackage \<times> 'w reconcileState" where
  "reconcilerChain [] i pkg s = ((zeroResult, None), pkg, s)"
| "reconcilerChain (r # rs) i pkg s =
     (case r pkg (RWorld s) of
        (((res, err), pkg1), w) \<Rightarrow>
          if err \<noteq> None \<or> \<not> IsZero res
          then ((res, err), pkg1, rlogged (SubReconcile i) err w s)
          else reconcilerChain rs (Suc i) pkg1 (rlogged (SubReconcile i) err w s))"

text \<open>
  The deferred function of \<open>Reconcile\<close>, registered once the package is fetched: the
  metrics are recorded when the returned error is nil and there is a recorder.
\<close>

definition recordMetrics ::
  "'w genericPackageController \<Rightarrow> error option \<Rightarrow> genericPackage \<Rightarrow> 'w reconcileState
     \<Rightarrow> 'w reconcileState" where
  "recordMetrics c err pkg s =
     (if err \<noteq> None then s
      else (case recorder c of
              None \<Rightarrow> s
            | Some hook \<Rightarrow>
                rlogged (RecordPackageMetrics pkg) None (hook pkg (RWorld s)) s))"

text \<open>\<open>Reconcile\<close>. The log lines are left out.\<close>

definition Reconcile ::
  "'w genericPackageController \<Rightarrow> string \<Rightarrow> 'w reconcileState
     \<Rightarrow> (result \<times> error option) \<times> 'w reconcileState" where
  "Reconcile c req s =
     (case clientGet c req (RWorld s) of
        (Inl e, w) \<Rightarrow>
          ((zeroResult, IgnoreNotFound (Some e)), rlogged (PackageGet req) (Some e) w s)
      | (Inr pkg, w) \<Rightarrow>
          (let s1 = rlogged (PackageGet req) None w s
           in if \<not> timeIsZero (DeletionTimestamp pkg)
              then (case handleDeletion c pkg s1 of
                      (Some e, pkg1, s2) \<Rightarrow>
                        ((zeroResult, Some e), recordMetrics c (Some e) pkg1 s2)
                    | (None, pkg1, s2) \<Rightarrow>
                        ((zeroResult, None), recordMetrics c None pkg1 s2))
              else (case reconcilerChain (reconciler c) 0 pkg s1 of
                      ((res, Some e), pkg1, s2) \<Rightarrow>
                        ((res, Some e), recordMetrics c (Some e) pkg1 s2)
                    | ((res, None), pkg1, s2) \<Rightarrow>
                        (case updateStatus c pkg1 s2 of
                           (err, pkg2, s3) \<Rightarrow> ((res, err), recordMetrics c err pkg2 s3)))))"

text \<open>
  A scripted controller for concrete runs: the world is the package that Get returns,
  or the error of the Get; the other client operations reply as the given functions
  say; the sub-reconcilers are given.
\<close>

definition scriptedController ::
  "(genericPackage \<Rightarrow> error option) \<Rightarrow> (genericPackage \<Rightarrow> error option)
     \<Rightarrow> (genericPackage \<Rightarrow> (result \<times> error option) \<times> genericPackage) list
     \<Rightarrow> (error + genericPackage) genericPackageController" where
  "scriptedController updateReply statusReply subs =
     \<lparr>clientGet = (\<lambda>req w. (w, w)),
      clientUpdate = (\<lambda>pkg w. (case updateReply pkg of None \<Rightarrow> Inr pkg | Some e \<Rightarrow> Inl e, w)),
      clientStatusUpdate =
        (\<lambda>pkg w. (case statusReply pkg of None \<Rightarrow> Inr pkg | Some e \<Rightarrow> Inl e, w)),
      clientPatch = (\<lambda>pkg w. (None, w)),
      reconciler = map (\<lambda>sub pkg w. (sub pkg, w)) subs,
      recorder = Some (\<lambda>pkg w. w),
      UpdatePhase = (\<lambda>pkg. pkg\<lparr>PackagePhase := ''Progressing''\<rparr>)\<rparr>"

definition examplePackage :: "nat option \<Rightarrow> string list \<Rightarrow> genericPackage" where
  "examplePackage deleted fs =
     \<lparr>Name = ''test'', Finalizers = fs, DeletionTimestamp = deleted,
      PackageConditions = [], PackagePhase = ''''\<rparr>"


definition requeueSub :: "genericPackage \<Rightarrow> (result \<times> error option) \<times> genericPackage" where
  "requeueSub pkg = ((\<lparr>Requeue = True, RequeueAfter = 0\<rparr>, None), pkg)"


text \<open>The calls that a reconcile added to the trace.\<close>

definition newReconcileCalls ::
  "'w reconcileState \<Rightarrow> 'w reconcileState \<Rightarrow> (reconcileCall \<times> error option) list" where
  "newReconcileCalls s s' = drop (length (RTrace s)) (RTrace s')"

section \<open>Properties of the probes\<close>

lemma needsBootstrap_conds_iff:
  "needsBootstrap_conds conds \<longleftrightarrow>
     \<not> (\<exists>cond \<in> set conds. CondType cond = DeploymentAvailable \<and> CondStatus cond = ConditionTrue)"
  by (induction conds) auto

lemma needsForcedCleanup_conds_iff:
  "needsForcedCleanup_conds conds \<longleftrightarrow>
     (\<exists>cond \<in> set conds. CondType cond = DeploymentAvailable \<and> CondStatus cond = ConditionFalse)"
  by (induction conds) auto

text \<open>
  C5. \<open>needsBootstrap\<close> answers true without an error when the Get of the Deployment
  fails with NotFound, true when the Deployment is there and none of its conditions is
  Available with status True, and false when such a condition is there.
\<close>

theorem needsBootstrap_cases:
  "(GetDeployment (client_B b)
       \<lparr>KeyName = packageOperatorDeploymentName, KeyNamespace = pkoNamespace_B b\<rparr> (World s)
        = (Inl e, w) \<and> isNotFoundE e
      \<longrightarrow> fst (needsBootstrap b s) = (True, None))
   \<and> (GetDeployment (client_B b)
       \<lparr>KeyName = packageOperatorDeploymentName, KeyNamespace = pkoNamespace_B b\<rparr> (World s)
        = (Inr deploy, w)
      \<longrightarrow> fst (needsBootstrap b s) =
            (\<not> (\<exists>cond \<in> set (Conditions deploy).
                  CondType cond = DeploymentAvailable \<and> CondStatus cond = ConditionTrue), None))"
  by (simp add: needsBootstrap_def doGetDeployment_def errOf_def IsNotFound_def
      needsBootstrap_conds_iff)

theorem needsBootstrap_cases_witness:
  "fst (needsBootstrap \<lparr>client_B = deploymentClient, pkoNamespace_B = ''pko''\<rparr>
          \<lparr>World = Inl NotFound, Trace = []\<rparr>) = (True, None)
   \<and> fst (needsBootstrap \<lparr>client_B = deploymentClient, pkoNamespace_B = ''pko''\<rparr>
          \<lparr>World = Inr \<lparr>Conditions = [\<lparr>CondType = ''Available'', CondStatus = ''True''\<rparr>]\<rparr>,
             Trace = []\<rparr>) = (False, None)
   \<and> fst (needsBootstrap \<lparr>client_B = deploymentClient, pkoNamespace_B = ''pko''\<rparr>
          \<lparr>World = Inr \<lparr>Conditions = [\<lparr>CondType = ''Available'', CondStatus = ''False''\<rparr>]\<rparr>,
             Trace = []\<rparr>) = (True, None)"
  using
    needsBootstrap_cases [of "\<lparr>client_B = deploymentClient, pkoNamespace_B = ''pko''\<rparr>"
      "\<lparr>World = Inl NotFound, Trace = []\<rparr>" NotFound "Inl NotFound" undefined]
    needsBootstrap_cases [of "\<lparr>client_B = deploymentClient, pkoNamespace_B = ''pko''\<rparr>"
      "\<lparr>World = Inr \<lparr>Conditions = [\<lparr>CondType = ''Available'', CondStatus = ''True''\<rparr>]\<rparr>,
         Trace = []\<rparr>" undefined
      "Inr \<lparr>Conditions = [\<lparr>CondType = ''Available'', CondStatus = ''True''\<rparr>]\<rparr>"
      "\<lparr>Conditions = [\<lparr>CondType = ''Available'', CondStatus = ''True''\<rparr>]\<rparr>"]
    needsBootstrap_cases [of "\<lparr>client_B = deploymentClient, pkoNamespace_B = ''pko''\<rparr>"
      "\<lparr>World = Inr \<lparr>Conditions = [\<lparr>CondType = ''Available'', CondStatus = ''False''\<rparr>]\<rparr>,
         Trace = []\<rparr>" undefined
      "Inr \<lparr>Conditions = [\<lparr>CondType = ''Available'', CondStatus = ''False''\<rparr>]\<rparr>"
      "\<lparr>Conditions = [\<lparr>CondType = ''Available'', CondStatus = ''False''\<rparr>]\<rparr>"]
  by (simp add: deploymentClient_def DeploymentAvailable_def ConditionTrue_def)

text \<open>
  C10. When the Deployment is there and none of its conditions has the type Available
  (an empty condition list, for one), \<open>needsForcedCleanup\<close> answers false and
  \<open>needsBootstrap\<close> answers true, both without an error.
\<close>

theorem probes_disagree_without_available_condition:
  assumes "GetDeployment (client b)
             \<lparr>KeyName = ''package-operator-manager'', KeyNamespace = pkoNamespace b\<rparr> (World s)
           = (Inr deploy, w)"
    and "GetDeployment (client_B b')
             \<lparr>KeyName = packageOperatorDeploymentName, KeyNamespace = pkoNamespace_B b'\<rparr>
             (World s') = (Inr deploy, w')"
    and "\<forall>cond \<in> set (Conditions deploy). CondType cond \<noteq> DeploymentAvailable"
  shows "fst (needsForcedCleanup b s) = (False, None)
         \<and> fst (needsBootstrap b' s') = (True, None)"
  using assms
  by (auto simp add: needsForcedCleanup_def needsBootstrap_def doGetDeployment_def errOf_def
      IsNotFound_def needsBootstrap_conds_iff needsForcedCleanup_conds_iff)

theorem probes_disagree_witness:
  "fst (needsForcedCleanup
          \<lparr>selfBootstrapImage = ''img'', pkoNamespace = ''pko'', client = deploymentClient\<rparr>
          \<lparr>World = Inr \<lparr>Conditions = []\<rparr>, Trace = []\<rparr>) = (False, None)
   \<and> fst (needsBootstrap \<lparr>client_B = deploymentClient, pkoNamespace_B = ''pko''\<rparr>
          \<lparr>World = Inr \<lparr>Conditions = []\<rparr>, Trace = []\<rparr>) = (True, None)"
  by (rule probes_disagree_without_available_condition
        [where w = "Inr \<lparr>Conditions = []\<rparr>" and w' = "Inr \<lparr>Conditions = []\<rparr>"
           and deploy = "\<lparr>Conditions = []\<rparr>"])
     (simp_all add: deploymentClient_def)

section \<open>Properties of the forced cleanup cascade\<close>

lemma abortsAtFirstFailure_append:
  "abortsAtFirstFailure None n1 \<Longrightarrow> abortsAtFirstFailure r n2
     \<Longrightarrow> abortsAtFirstFailure r (n1 @ n2)"
  by (cases r) (auto simp add: abortsAtFirstFailure_def butlast_append)

lemma cascadeCalls_append:
  "cascadeCalls n1 \<Longrightarrow> cascadeCalls n2 \<Longrightarrow> cascadeCalls (n1 @ n2)"
proof -
  assume "cascadeCalls n1" and "cascadeCalls n2"
  then obtain segs1 segs2 where "n1 = concat segs1" "list_all cascadeSegment segs1"
    "n2 = concat segs2" "list_all cascadeSegment segs2"
    unfolding cascadeCalls_def by blast
  then have "n1 @ n2 = concat (segs1 @ segs2) \<and> list_all cascadeSegment (segs1 @ segs2)"
    by simp
  then show ?thesis unfolding cascadeCalls_def by blast
qed

lemma cascadeCalls_Nil: "cascadeCalls []"
  unfolding cascadeCalls_def by (rule exI [of _ "[]"]) simp

lemma cascadeCalls_segment: "cascadeSegment seg \<Longrightarrow> cascadeCalls seg"
  unfolding cascadeCalls_def by (rule exI [of _ "[seg]"]) simp

lemma cascadeCalls_list: "cascadeCalls [(CallList k ls, e)]"
  by (rule cascadeCalls_segment) (auto simp add: cascadeSegment_def)

lemma cascadeCalls_block: "cascadeCalls (blockCalls obj e1 e2 e3)"
  by (rule cascadeCalls_segment) (unfold cascadeSegment_def, blast)

lemma doDelete_trace:
  "doDelete c obj s = (err, s') \<Longrightarrow> Trace s' = Trace s @ [(CallDelete obj, err)]"
  by (auto simp add: doDelete_def logged_def split: prod.splits)

lemma doUpdate_trace:
  "doUpdate c obj s = (err, s') \<Longrightarrow> Trace s' = Trace s @ [(CallUpdate obj, err)]"
  by (auto simp add: doUpdate_def logged_def split: prod.splits)

lemma doGet_trace:
  "doGet c k n s = (err, s') \<Longrightarrow> Trace s' = Trace s @ [(CallGet k n, err)]"
  by (auto simp add: doGet_def logged_def split: prod.splits)

lemma doListClusterObjectDeployments_trace:
  "doListClusterObjectDeployments c ls s = (r, s')
     \<Longrightarrow> Trace s' = Trace s @ [(CallList ClusterObjectDeploymentKind ls, errOf r)]"
  by (auto simp add: doListClusterObjectDeployments_def logged_def split: prod.splits)

lemma doListClusterObjectSets_trace:
  "doListClusterObjectSets c ls s = (r, s')
     \<Longrightarrow> Trace s' = Trace s @ [(CallList ClusterObjectSetKind ls, errOf r)]"
  by (auto simp add: doListClusterObjectSets_def logged_def split: prod.splits)

lemma deleteStripVerify_calls:
  assumes "deleteStripVerify c obj s = (res, s')"
  shows "\<exists>e1 e2 e3. Trace s' = Trace s @ blockCalls obj e1 e2 e3
           \<and> abortsAtFirstFailure res (blockCalls obj e1 e2 e3)"
proof -
  obtain e1 s1 where d: "doDelete c obj s = (e1, s1)" by (cases "doDelete c obj s")
  note t1 = doDelete_trace [OF d]
  show ?thesis
  proof (cases e1)
    case (Some e)
    with assms d have "res = Some (Errorf (''deleting stuck PackageOperator ''
        @ kindName (kindOf obj)) e1)" "s' = s1"
      by (auto simp add: deleteStripVerify_def Errorf_def)
    with t1 Some have "Trace s' = Trace s @ blockCalls obj e1 None None
           \<and> abortsAtFirstFailure res (blockCalls obj e1 None None)"
      by (auto simp add: blockCalls_def abortsAtFirstFailure_def)
    then show ?thesis by blast
  next
    case None
    note e1 = None
    show ?thesis
    proof (cases "length (objFinalizers obj) > 0")
      case False
      obtain e3 s3 where g: "doGet c (kindOf obj) (objName obj) s1 = (e3, s3)"
        by (cases "doGet c (kindOf obj) (objName obj) s1")
      note t3 = doGet_trace [OF g]
      from False assms d e1 g
      have "res = (if \<not> IsNotFound e3
                   then Some (Errorf (''ensuring '' @ kindName (kindOf obj) @ '' is gone'') e3)
                   else None)" "s' = s3"
        by (auto simp add: deleteStripVerify_def split: if_splits)
      with False e1 t1 t3 have "Trace s' = Trace s @ blockCalls obj e1 None e3
           \<and> abortsAtFirstFailure res (blockCalls obj e1 None e3)"
        by (auto simp add: blockCalls_def abortsAtFirstFailure_def)
      then show ?thesis by blast
    next
      case True
      obtain e2 s2 where u: "doUpdate c (setFinalizers [] obj) s1 = (e2, s2)"
        by (cases "doUpdate c (setFinalizers [] obj) s1")
      note t2 = doUpdate_trace [OF u]
      show ?thesis
      proof (cases e2)
        case (Some e)
        with True assms d e1 u
        have "res = Some (Errorf (''releasing finalizers on stuck PackageOperator ''
            @ kindName (kindOf obj)) e2)" "s' = s2"
          by (auto simp add: deleteStripVerify_def Errorf_def)
        with True e1 Some t1 t2 have "Trace s' = Trace s @ blockCalls obj e1 e2 None
           \<and> abortsAtFirstFailure res (blockCalls obj e1 e2 None)"
          by (auto simp add: blockCalls_def abortsAtFirstFailure_def)
        then show ?thesis by blast
      next
        case None
        obtain e3 s3 where g: "doGet c (kindOf obj) (objName obj) s2 = (e3, s3)"
          by (cases "doGet c (kindOf obj) (objName obj) s2")
        note t3 = doGet_trace [OF g]
        from True None assms d e1 u g
        have "res = (if \<not> IsNotFound e3
                     then Some (Errorf (''ensuring '' @ kindName (kindOf obj) @ '' is gone'') e3)
                     else None)" "s' = s3"
          by (auto simp add: deleteStripVerify_def split: if_splits)
        with True e1 None t1 t2 t3 have "Trace s' = Trace s @ blockCalls obj e1 e2 e3
           \<and> abortsAtFirstFailure res (blockCalls obj e1 e2 e3)"
          by (auto simp add: blockCalls_def abortsAtFirstFailure_def)
        then show ?thesis by blast
      qed
    qed
  qed
qed

lemma deleteStripVerify_run:
  assumes "deleteStripVerify c obj s = (res, s')"
  shows "\<exists>new. Trace s' = Trace s @ new \<and> abortsAtFirstFailure res new \<and> cascadeCalls new"
  using deleteStripVerify_calls [OF assms] cascadeCalls_block by blast

lemma forcedCleanup_loop_run:
  "forcedCleanup_loop c objs s = (res, s')
     \<Longrightarrow> \<exists>new. Trace s' = Trace s @ new \<and> abortsAtFirstFailure res new \<and> cascadeCalls new"
proof (induction objs arbitrary: s)
  case Nil
  then show ?case by (simp add: abortsAtFirstFailure_def cascadeCalls_Nil)
next
  case (Cons obj objs)
  obtain r1 s1 where d: "deleteStripVerify c obj s = (r1, s1)"
    by (cases "deleteStripVerify c obj s")
  from deleteStripVerify_run [OF d] obtain n1 where
    n1: "Trace s1 = Trace s @ n1" "abortsAtFirstFailure r1 n1" "cascadeCalls n1" by blast
  show ?case
  proof (cases r1)
    case (Some e)
    with Cons.prems d n1 show ?thesis by auto
  next
    case None
    with Cons.prems d have "forcedCleanup_loop c objs s1 = (res, s')" by simp
    from Cons.IH [OF this] obtain n2 where
      n2: "Trace s' = Trace s1 @ n2" "abortsAtFirstFailure res n2" "cascadeCalls n2" by blast
    from n1 n2 None have "Trace s' = Trace s @ (n1 @ n2)"
      "abortsAtFirstFailure res (n1 @ n2)" "cascadeCalls (n1 @ n2)"
      by (simp_all add: abortsAtFirstFailure_append cascadeCalls_append)
    then show ?thesis by blast
  qed
qed

lemma newCalls_eq: "Trace s' = Trace s @ new \<Longrightarrow> newCalls s s' = new"
  by (simp add: newCalls_def)

lemma deletedObjects_append: "deletedObjects (xs @ ys) = deletedObjects xs @ deletedObjects ys"
  by (induction xs rule: deletedObjects.induct) simp_all

lemma deleteStripVerify_deleted:
  assumes "deleteStripVerify c obj s = (res, s')"
  shows "\<exists>err rest. newCalls s s' = (CallDelete obj, err) # rest \<and> deletedObjects rest = []"
proof -
  obtain e1 s1 where d: "doDelete c obj s = (e1, s1)" by (cases "doDelete c obj s")
  obtain e2 s2 where u: "doUpdate c (setFinalizers [] obj) s1 = (e2, s2)"
    by (cases "doUpdate c (setFinalizers [] obj) s1")
  define e3 where "e3 = (\<lambda>s2. fst (doGet c (kindOf obj) (objName obj) s2))"
  define s3 where "s3 = (\<lambda>s2. snd (doGet c (kindOf obj) (objName obj) s2))"
  have g: "doGet c (kindOf obj) (objName obj) s2 = (e3 s2, s3 s2)" for s2
    by (simp add: e3_def s3_def)
  note t = doDelete_trace [OF d] doUpdate_trace [OF u] doGet_trace [OF g [of s1]]
    doGet_trace [OF g [of s2]]
  from assms d u g [of s1] g [of s2] t show ?thesis
    by (auto simp add: deleteStripVerify_def newCalls_def split: option.splits if_splits)
qed

lemma deleteStripVerify_delete_fails:
  assumes "Delete c obj (World s) = (Some e, w)"
  shows "deleteStripVerify c obj s =
           (Some (Wrapped (''deleting stuck PackageOperator '' @ kindName (kindOf obj)) e),
            logged (CallDelete obj) (Some e) w s)"
  using assms by (simp add: deleteStripVerify_def doDelete_def)

lemma cleanupRun_trans:
  "cleanupRun s s1 None \<Longrightarrow> cleanupRun s1 s' res \<Longrightarrow> cleanupRun s s' res"
  unfolding cleanupRun_def
  by (metis abortsAtFirstFailure_append cascadeCalls_append append.assoc)

lemma cleanupRun_list_deployments:
  assumes "doListClusterObjectDeployments c ls s = (r, s')"
  shows "cleanupRun s s' (map_option (Wrapped msg) (errOf r))"
  using doListClusterObjectDeployments_trace [OF assms]
  by (cases r)
     (auto simp add: cleanupRun_def abortsAtFirstFailure_def cascadeCalls_list errOf_def
        Errorf_def)

lemma cleanupRun_list_sets:
  assumes "doListClusterObjectSets c ls s = (r, s')"
  shows "cleanupRun s s' (map_option (Wrapped msg) (errOf r))"
  using doListClusterObjectSets_trace [OF assms]
  by (cases r)
     (auto simp add: cleanupRun_def abortsAtFirstFailure_def cascadeCalls_list errOf_def
        Errorf_def)

lemma forcedCleanup_unfold:
  "forcedCleanup b pkg s =
     (case deleteStripVerify (client b) (ClusterPackageObj pkg) s of
        (Some e, s1) \<Rightarrow> (Some e, s1)
      | (None, s1) \<Rightarrow> forcedCleanup_owned b s1)"
  unfolding forcedCleanup_def forcedCleanup_owned_def
  by (simp split: prod.splits option.splits)

lemma forcedCleanup_owned_cleanupRun:
  assumes "forcedCleanup_owned b s1 = (res, s')"
  shows "cleanupRun s1 s' res"
proof -
  let ?c = "client b"
  obtain l2 s2 where l2: "doListClusterObjectDeployments ?c forcedCleanup_labels s1 = (l2, s2)"
    by (cases "doListClusterObjectDeployments ?c forcedCleanup_labels s1")
  note c2 = cleanupRun_list_deployments [OF l2,
      of "''listing stuck PackageOperator ClusterObjectDeployments''"]
  show ?thesis
  proof (cases l2)
    case (Inl e)
    with assms l2
    have "res = Some (Wrapped ''listing stuck PackageOperator ClusterObjectDeployments'' e)"
      "s' = s2" by (auto simp add: forcedCleanup_owned_def)
    with c2 Inl show ?thesis by (simp add: errOf_def)
  next
    case (Inr cods)
    note cods = Inr
    with c2 have c12: "cleanupRun s1 s2 None" by (simp add: errOf_def)
    obtain r3 s3 where
      l3: "forcedCleanup_loop ?c (map ClusterObjectDeploymentObj cods) s2 = (r3, s3)"
      by (cases "forcedCleanup_loop ?c (map ClusterObjectDeploymentObj cods) s2")
    have "cleanupRun s2 s3 r3"
      using forcedCleanup_loop_run [OF l3] by (simp add: cleanupRun_def)
    with c12 have c3: "cleanupRun s1 s3 r3" by (rule cleanupRun_trans)
    show ?thesis
    proof (cases r3)
      case (Some e)
      with assms l2 cods l3 have "res = r3" "s' = s3"
        by (auto simp add: forcedCleanup_owned_def)
      with c3 show ?thesis by simp
    next
      case None
      note r3 = None
      obtain l4 s4 where l4: "doListClusterObjectSets ?c forcedCleanup_labels s3 = (l4, s4)"
        by (cases "doListClusterObjectSets ?c forcedCleanup_labels s3")
      note c4 = cleanupRun_list_sets [OF l4,
          of "''listing stuck PackageOperator ClusterObjectSets''"]
      show ?thesis
      proof (cases l4)
        case (Inl e)
        with assms l2 cods l3 r3 l4
        have "res = Some (Wrapped ''listing stuck PackageOperator ClusterObjectSets'' e)"
          "s' = s4" by (auto simp add: forcedCleanup_owned_def)
        with c3 c4 r3 Inl show ?thesis by (auto simp add: errOf_def intro: cleanupRun_trans)
      next
        case (Inr coss)
        with c3 c4 r3 have c34: "cleanupRun s1 s4 None"
          by (auto simp add: errOf_def intro: cleanupRun_trans)
        from assms l2 cods l3 r3 l4 Inr
        have l5: "forcedCleanup_loop ?c (map ClusterObjectSetObj coss) s4 = (res, s')"
          by (auto simp add: forcedCleanup_owned_def)
        have "cleanupRun s4 s' res"
          using forcedCleanup_loop_run [OF l5] by (simp add: cleanupRun_def)
        with c34 show ?thesis by (rule cleanupRun_trans)
      qed
    qed
  qed
qed

lemma forcedCleanup_owned_nothing_listed:
  assumes "forcedCleanup_owned b s1 = (res, s')"
    and "fst (ListClusterObjectDeployments (client b) forcedCleanup_labels (World s1)) = Inr []"
    and "fst (ListClusterObjectSets (client b) forcedCleanup_labels
                (snd (ListClusterObjectDeployments (client b) forcedCleanup_labels (World s1))))
         = Inr []"
  shows "res = None \<and> newCalls s1 s' =
           [(CallList ClusterObjectDeploymentKind forcedCleanup_labels, None),
            (CallList ClusterObjectSetKind forcedCleanup_labels, None)]"
proof -
  obtain w2 where w2: "ListClusterObjectDeployments (client b) forcedCleanup_labels (World s1)
      = (Inr [], w2)" using assms(2) by (metis prod.collapse)
  with assms(3) obtain w4 where
    w4: "ListClusterObjectSets (client b) forcedCleanup_labels w2 = (Inr [], w4)"
    by (metis prod.collapse snd_conv)
  from assms(1) w2 w4 show ?thesis
    by (auto simp add: forcedCleanup_owned_def doListClusterObjectDeployments_def
        doListClusterObjectSets_def logged_def errOf_def newCalls_def)
qed

lemma forcedCleanup_cleanupRun:
  assumes "forcedCleanup b pkg s = (res, s')"
  shows "cleanupRun s s' res"
proof -
  obtain r1 s1 where d: "deleteStripVerify (client b) (ClusterPackageObj pkg) s = (r1, s1)"
    by (cases "deleteStripVerify (client b) (ClusterPackageObj pkg) s")
  have c1: "cleanupRun s s1 r1"
    using deleteStripVerify_run [OF d] by (simp add: cleanupRun_def)
  show ?thesis
  proof (cases r1)
    case (Some e)
    with assms d c1 show ?thesis by (auto simp add: forcedCleanup_unfold)
  next
    case None
    with assms d have "forcedCleanup_owned b s1 = (res, s')"
      by (simp add: forcedCleanup_unfold)
    from forcedCleanup_owned_cleanupRun [OF this] c1 None show ?thesis
      by (auto intro: cleanupRun_trans)
  qed
qed

lemma cleanupRun_newCalls:
  "cleanupRun s s' res \<Longrightarrow> Trace s' = Trace s @ newCalls s s'"
  by (auto simp add: cleanupRun_def newCalls_def)

lemma newCalls_trans:
  "Trace s1 = Trace s @ newCalls s s1 \<Longrightarrow> Trace s' = Trace s1 @ newCalls s1 s'
     \<Longrightarrow> newCalls s s' = newCalls s s1 @ newCalls s1 s'"
  by (metis append.assoc newCalls_eq)

lemma forcedCleanup_first_call:
  assumes "forcedCleanup b pkg s = (res, s')"
  shows "\<exists>err rest. newCalls s s' = (CallDelete (ClusterPackageObj pkg), err) # rest"
proof -
  obtain r1 s1 where d: "deleteStripVerify (client b) (ClusterPackageObj pkg) s = (r1, s1)"
    by (cases "deleteStripVerify (client b) (ClusterPackageObj pkg) s")
  from deleteStripVerify_deleted [OF d] obtain err rest where
    n1: "newCalls s s1 = (CallDelete (ClusterPackageObj pkg), err) # rest" by blast
  have t1: "Trace s1 = Trace s @ newCalls s s1"
    using deleteStripVerify_run [OF d] by (auto simp add: newCalls_def)
  show ?thesis
  proof (cases r1)
    case (Some e)
    with assms d n1 show ?thesis by (auto simp add: forcedCleanup_unfold)
  next
    case None
    with assms d have "forcedCleanup_owned b s1 = (res, s')"
      by (simp add: forcedCleanup_unfold)
    from cleanupRun_newCalls [OF forcedCleanup_owned_cleanupRun [OF this]]
    have "newCalls s s' = newCalls s s1 @ newCalls s1 s'" using t1 by (rule newCalls_trans [rotated])
    with n1 show ?thesis by simp
  qed
qed

lemma forcedCleanup_first_block:
  assumes "forcedCleanup b pkg s = (res, s')"
  shows "\<exists>e1 e2 e3 rest. newCalls s s' = blockCalls (ClusterPackageObj pkg) e1 e2 e3 @ rest"
proof -
  obtain r1 s1 where d: "deleteStripVerify (client b) (ClusterPackageObj pkg) s = (r1, s1)"
    by (cases "deleteStripVerify (client b) (ClusterPackageObj pkg) s")
  from deleteStripVerify_calls [OF d] obtain e1 e2 e3 where
    t1: "Trace s1 = Trace s @ blockCalls (ClusterPackageObj pkg) e1 e2 e3" by blast
  then have n1: "newCalls s s1 = blockCalls (ClusterPackageObj pkg) e1 e2 e3"
    by (rule newCalls_eq)
  show ?thesis
  proof (cases r1)
    case (Some e)
    with assms d have "s' = s1" by (auto simp add: forcedCleanup_unfold)
    with n1 have "newCalls s s' = blockCalls (ClusterPackageObj pkg) e1 e2 e3 @ []" by simp
    then show ?thesis by blast
  next
    case None
    with assms d have "forcedCleanup_owned b s1 = (res, s')"
      by (simp add: forcedCleanup_unfold)
    from cleanupRun_newCalls [OF forcedCleanup_owned_cleanupRun [OF this]]
    have "Trace s' = Trace s1 @ newCalls s1 s'" .
    with t1 have "Trace s' = Trace s @ (blockCalls (ClusterPackageObj pkg) e1 e2 e3
        @ newCalls s1 s')" by simp
    then have "newCalls s s' = blockCalls (ClusterPackageObj pkg) e1 e2 e3 @ newCalls s1 s'"
      by (rule newCalls_eq)
    then show ?thesis by blast
  qed
qed

lemma forcedCleanup_nothing_listed:
  assumes "forcedCleanup b pkg s = (res, s')"
    and "deleteStripVerify (client b) (ClusterPackageObj pkg) s = (None, s1)"
    and "fst (ListClusterObjectDeployments (client b) forcedCleanup_labels (World s1)) = Inr []"
    and "fst (ListClusterObjectSets (client b) forcedCleanup_labels
                (snd (ListClusterObjectDeployments (client b) forcedCleanup_labels (World s1))))
         = Inr []"
  shows "res = None \<and> newCalls s s' = newCalls s s1 @
           [(CallList ClusterObjectDeploymentKind forcedCleanup_labels, None),
            (CallList ClusterObjectSetKind forcedCleanup_labels, None)]"
proof -
  from assms(1,2) have o: "forcedCleanup_owned b s1 = (res, s')"
    by (simp add: forcedCleanup_unfold)
  note n = forcedCleanup_owned_nothing_listed [OF o assms(3,4)]
  have t1: "Trace s1 = Trace s @ newCalls s s1"
    using deleteStripVerify_run [OF assms(2)] by (auto simp add: newCalls_def)
  from cleanupRun_newCalls [OF forcedCleanup_owned_cleanupRun [OF o]]
  have "newCalls s s' = newCalls s s1 @ newCalls s1 s'"
    using t1 by (rule newCalls_trans [rotated])
  with n show ?thesis by simp
qed

text \<open>
  C7 (amended). A run of \<open>forcedCleanup\<close> only adds calls to the trace. It stops at
  the first call that fails (for the Get after a delete: that does not report NotFound)
  and returns what that call returned, wrapped. Its calls are list calls and blocks, one
  block per object: the Delete, then, only when the Delete succeeded, the Update with
  the finalizers emptied if and only if the object has finalizers, then the Get of the
  object unless the Update failed; the first block is that of the ClusterPackage. An
  error of the Delete of the ClusterPackage, NotFound included, is returned like any
  other and ends the run after that one call. When the block of the ClusterPackage
  succeeds and the two lists made after it come back empty, the run returns no error
  and its only further calls are the two lists.
\<close>

theorem forcedCleanup_aborts_at_first_failure:
  assumes "forcedCleanup b pkg s = (res, s')"
  shows "Trace s' = Trace s @ newCalls s s'
         \<and> abortsAtFirstFailure res (newCalls s s')
         \<and> cascadeCalls (newCalls s s')
         \<and> (\<exists>e1 e2 e3 rest.
               newCalls s s' = blockCalls (ClusterPackageObj pkg) e1 e2 e3 @ rest)
         \<and> (\<forall>e w. Delete (client b) (ClusterPackageObj pkg) (World s) = (Some e, w) \<longrightarrow>
               res = Some (Wrapped ''deleting stuck PackageOperator ClusterPackage'' e)
               \<and> newCalls s s' = [(CallDelete (ClusterPackageObj pkg), Some e)])
         \<and> (\<forall>s1. deleteStripVerify (client b) (ClusterPackageObj pkg) s = (None, s1)
                \<and> fst (ListClusterObjectDeployments (client b) forcedCleanup_labels (World s1))
                    = Inr []
                \<and> fst (ListClusterObjectSets (client b) forcedCleanup_labels
                          (snd (ListClusterObjectDeployments (client b) forcedCleanup_labels
                                  (World s1)))) = Inr []
              \<longrightarrow> res = None
                  \<and> newCalls s s' = newCalls s s1 @
                      [(CallList ClusterObjectDeploymentKind forcedCleanup_labels, None),
                       (CallList ClusterObjectSetKind forcedCleanup_labels, None)])"
proof -
  from forcedCleanup_cleanupRun [OF assms] obtain new where
    new: "Trace s' = Trace s @ new" "abortsAtFirstFailure res new" "cascadeCalls new"
    by (auto simp add: cleanupRun_def)
  then have n: "newCalls s s' = new" by (simp add: newCalls_def)
  have 1: "Trace s' = Trace s @ newCalls s s'" "abortsAtFirstFailure res (newCalls s s')"
    "cascadeCalls (newCalls s s')"
    unfolding n using new by simp_all
  note 2 = forcedCleanup_first_block [OF assms]
  have 3: "\<forall>e w. Delete (client b) (ClusterPackageObj pkg) (World s) = (Some e, w) \<longrightarrow>
               res = Some (Wrapped ''deleting stuck PackageOperator ClusterPackage'' e)
               \<and> newCalls s s' = [(CallDelete (ClusterPackageObj pkg), Some e)]"
  proof (intro allI impI)
    fix e w assume "Delete (client b) (ClusterPackageObj pkg) (World s) = (Some e, w)"
    from assms deleteStripVerify_delete_fails [OF this]
    show "res = Some (Wrapped ''deleting stuck PackageOperator ClusterPackage'' e)
        \<and> newCalls s s' = [(CallDelete (ClusterPackageObj pkg), Some e)]"
      by (auto simp add: forcedCleanup_unfold logged_def newCalls_def)
  qed
  have 4: "\<forall>s1. deleteStripVerify (client b) (ClusterPackageObj pkg) s = (None, s1)
                \<and> fst (ListClusterObjectDeployments (client b) forcedCleanup_labels (World s1))
                    = Inr []
                \<and> fst (ListClusterObjectSets (client b) forcedCleanup_labels
                          (snd (ListClusterObjectDeployments (client b) forcedCleanup_labels
                                  (World s1)))) = Inr []
              \<longrightarrow> res = None
                  \<and> newCalls s s' = newCalls s s1 @
                      [(CallList ClusterObjectDeploymentKind forcedCleanup_labels, None),
                       (CallList ClusterObjectSetKind forcedCleanup_labels, None)]"
    using forcedCleanup_nothing_listed [OF assms] by blast
  from 1 2 3 4 show ?thesis by blast
qed

theorem forcedCleanup_aborts_witness:
  "fst (forcedCleanup conflictBootstrapper stuckPackage \<lparr>World = stuckStore, Trace = []\<rparr>)
     = Some (Wrapped ''releasing finalizers on stuck PackageOperator ClusterPackage'' Conflict)
   \<and> Trace (snd (forcedCleanup conflictBootstrapper stuckPackage
                   \<lparr>World = stuckStore, Trace = []\<rparr>))
       = [(CallDelete (ClusterPackageObj stuckPackage), None),
          (CallUpdate (ClusterPackageObj (stuckPackage\<lparr>Finalizers := []\<rparr>)), Some Conflict)]
   \<and> cascadeCalls
       [(CallDelete (ClusterPackageObj stuckPackage), None),
        (CallUpdate (ClusterPackageObj (stuckPackage\<lparr>Finalizers := []\<rparr>)), Some Conflict)]
   \<and> fst (forcedCleanup storeBootstrapper plainPackage
            \<lparr>World = plainStore\<lparr>Stored := []\<rparr>, Trace = []\<rparr>)
       = Some (Wrapped ''deleting stuck PackageOperator ClusterPackage'' NotFound)
   \<and> fst (forcedCleanup storeBootstrapper plainPackage \<lparr>World = plainStore, Trace = []\<rparr>)
       = None
   \<and> Trace (snd (forcedCleanup storeBootstrapper plainPackage
                   \<lparr>World = plainStore, Trace = []\<rparr>))
       = [(CallDelete (ClusterPackageObj plainPackage), None),
          (CallGet ClusterPackageKind ''package-operator'', Some NotFound),
          (CallList ClusterObjectDeploymentKind forcedCleanup_labels, None),
          (CallList ClusterObjectSetKind forcedCleanup_labels, None)]"
proof -
  let ?s3 = "\<lparr>World = stuckStore, Trace = []\<rparr>"
  let ?Z = "forcedCleanup conflictBootstrapper stuckPackage ?s3"
  have r: "fst ?Z
     = Some (Wrapped ''releasing finalizers on stuck PackageOperator ClusterPackage'' Conflict)"
    by code_simp
  have t: "Trace (snd ?Z)
       = [(CallDelete (ClusterPackageObj stuckPackage), None),
          (CallUpdate (ClusterPackageObj (stuckPackage\<lparr>Finalizers := []\<rparr>)), Some Conflict)]"
    by code_simp
  from forcedCleanup_aborts_at_first_failure
    [of conflictBootstrapper stuckPackage ?s3 "fst ?Z" "snd ?Z"]
  have "cascadeCalls (newCalls ?s3 (snd ?Z))" by simp
  then have c: "cascadeCalls (Trace (snd ?Z))" by (simp add: newCalls_def)
  note 1 = r t c [unfolded t]
  let ?s2 = "\<lparr>World = plainStore\<lparr>Stored := []\<rparr>, Trace = []\<rparr>"
  let ?Y = "forcedCleanup storeBootstrapper plainPackage ?s2"
  have del: "Delete (client storeBootstrapper) (ClusterPackageObj plainPackage) (World ?s2)
    = (Some NotFound, plainStore\<lparr>Stored := []\<rparr>)"
    by (simp add: storeBootstrapper_def storeClient_def storeDelete_def)
  from forcedCleanup_aborts_at_first_failure
    [of storeBootstrapper plainPackage ?s2 "fst ?Y" "snd ?Y"] del
  have 2: "fst ?Y = Some (Wrapped ''deleting stuck PackageOperator ClusterPackage'' NotFound)"
    by simp
  let ?s = "\<lparr>World = plainStore, Trace = []\<rparr>"
  let ?X = "forcedCleanup storeBootstrapper plainPackage ?s"
  let ?D = "deleteStripVerify (client storeBootstrapper) (ClusterPackageObj plainPackage) ?s"
  have d1: "fst ?D = None" by code_simp
  then have d: "?D = (None, snd ?D)" by (metis prod.collapse)
  have l1: "fst (ListClusterObjectDeployments (client storeBootstrapper) forcedCleanup_labels
                   (World (snd ?D))) = Inr []" by code_simp
  have l2: "fst (ListClusterObjectSets (client storeBootstrapper) forcedCleanup_labels
                   (snd (ListClusterObjectDeployments (client storeBootstrapper)
                           forcedCleanup_labels (World (snd ?D))))) = Inr []" by code_simp
  have calls: "newCalls ?s (snd ?D)
      = [(CallDelete (ClusterPackageObj plainPackage), None),
         (CallGet ClusterPackageKind ''package-operator'', Some NotFound)]" by code_simp
  from forcedCleanup_aborts_at_first_failure
    [of storeBootstrapper plainPackage ?s "fst ?X" "snd ?X"] d l1 l2
  have "fst ?X = None \<and> newCalls ?s (snd ?X) = newCalls ?s (snd ?D) @
          [(CallList ClusterObjectDeploymentKind forcedCleanup_labels, None),
           (CallList ClusterObjectSetKind forcedCleanup_labels, None)]"
    by (metis prod.collapse)
  then have 3: "fst ?X = None" "Trace (snd ?X)
       = [(CallDelete (ClusterPackageObj plainPackage), None),
          (CallGet ClusterPackageKind ''package-operator'', Some NotFound),
          (CallList ClusterObjectDeploymentKind forcedCleanup_labels, None),
          (CallList ClusterObjectSetKind forcedCleanup_labels, None)]"
    unfolding calls by (simp_all add: newCalls_def)
  from 1 2 3 show ?thesis by (intro conjI)
qed

text \<open>
  C7, as stated, fails. The store holds the ClusterPackage, which has no finalizers,
  and nothing else. The first run of the cascade succeeds and leaves nothing stored;
  the second run, on the world the first one left, sends the Delete for the
  ClusterPackage, gets NotFound, and returns it as an error after that one call.
\<close>

theorem forcedCleanup_second_run_fails:
  "fst (forcedCleanup storeBootstrapper plainPackage \<lparr>World = plainStore, Trace = []\<rparr>) = None
   \<and> Stored (World (snd (forcedCleanup storeBootstrapper plainPackage
                           \<lparr>World = plainStore, Trace = []\<rparr>))) = []
   \<and> forcedCleanup storeBootstrapper plainPackage
        \<lparr>World = World (snd (forcedCleanup storeBootstrapper plainPackage
                                \<lparr>World = plainStore, Trace = []\<rparr>)),
           Trace = []\<rparr>
       = (Some (Wrapped ''deleting stuck PackageOperator ClusterPackage'' NotFound),
          \<lparr>World = plainStore\<lparr>Stored := []\<rparr>,
           Trace = [(CallDelete (ClusterPackageObj plainPackage), Some NotFound)]\<rparr>)"
  by code_simp

lemma needsForcedCleanup_result:
  assumes "GetDeployment (client b)
             \<lparr>KeyName = ''package-operator-manager'', KeyNamespace = pkoNamespace b\<rparr> (World s)
           = (r, w)"
  shows "needsForcedCleanup b s =
           ((if IsNotFound (errOf r) then (True, None)
             else case r of
                    Inl e \<Rightarrow> (False, Some e)
                  | Inr deploy \<Rightarrow>
                      ((\<exists>cond \<in> set (Conditions deploy).
                          CondType cond = DeploymentAvailable \<and> CondStatus cond = ConditionFalse),
                       None)),
            logged (CallGetDeployment
                      \<lparr>KeyName = ''package-operator-manager'', KeyNamespace = pkoNamespace b\<rparr>)
                   (errOf r) w s)"
  using assms
  by (auto simp add: needsForcedCleanup_def doGetDeployment_def needsForcedCleanup_conds_iff
      split: sum.splits)

text \<open>
  C3 (amended). \<open>needsForcedCleanup\<close> answers true when the Get of the Deployment
  fails with NotFound, and when the Deployment is there with an Available condition of
  status False; it answers false when the Deployment is there without such a condition,
  and returns any other error of the Get. \<open>nukeIfNeeded\<close> starts the cascade (its
  first call, the Delete of the ClusterPackage, follows the Get) exactly when the answer
  is true; otherwise the Get is its only call.
\<close>

theorem nukeIfNeeded_trigger:
  assumes "GetDeployment (client b)
             \<lparr>KeyName = ''package-operator-manager'', KeyNamespace = pkoNamespace b\<rparr> (World s)
           = (r, w)"
    and "nukeIfNeeded b pkg s = (res, s')"
  shows "fst (needsForcedCleanup b s) =
           (if IsNotFound (errOf r) then (True, None)
            else case r of
                   Inl e \<Rightarrow> (False, Some e)
                 | Inr deploy \<Rightarrow>
                     ((\<exists>cond \<in> set (Conditions deploy).
                         CondType cond = DeploymentAvailable \<and> CondStatus cond = ConditionFalse),
                      None))
         \<and> (if fst (needsForcedCleanup b s) = (True, None)
            then \<exists>err rest.
                   newCalls s s' =
                     (CallGetDeployment
                        \<lparr>KeyName = ''package-operator-manager'', KeyNamespace = pkoNamespace b\<rparr>,
                      errOf r)
                     # (CallDelete (ClusterPackageObj pkg), err) # rest
            else newCalls s s' =
                   [(CallGetDeployment
                       \<lparr>KeyName = ''package-operator-manager'', KeyNamespace = pkoNamespace b\<rparr>,
                     errOf r)]
                 \<and> res = map_option (Wrapped ''check for forced cleanup'') (errOf r))"
proof -
  let ?k = "\<lparr>KeyName = ''package-operator-manager'', KeyNamespace = pkoNamespace b\<rparr>"
  let ?s1 = "logged (CallGetDeployment ?k) (errOf r) w s"
  define v where "v = fst (needsForcedCleanup b s)"
  note n = needsForcedCleanup_result [OF assms(1)]
  then have nfc: "needsForcedCleanup b s = (v, ?s1)" by (simp add: v_def)
  have t1: "Trace ?s1 = Trace s @ [(CallGetDeployment ?k, errOf r)]"
    by (simp add: logged_def)
  have v: "v = (True, None) \<or> (\<exists>e. v = (False, Some e) \<and> errOf r = Some e)
           \<or> (v = (False, None) \<and> errOf r = None)"
    unfolding v_def n by (cases r) (simp_all add: errOf_def IsNotFound_def, blast)
  have first: "fst (needsForcedCleanup b s) =
           (if IsNotFound (errOf r) then (True, None)
            else case r of
                   Inl e \<Rightarrow> (False, Some e)
                 | Inr deploy \<Rightarrow>
                     ((\<exists>cond \<in> set (Conditions deploy).
                         CondType cond = DeploymentAvailable \<and> CondStatus cond = ConditionFalse),
                      None))"
    by (simp add: n)
  have second: "if v = (True, None)
            then \<exists>err rest.
                   newCalls s s' =
                     (CallGetDeployment ?k, errOf r) # (CallDelete (ClusterPackageObj pkg), err) # rest
            else newCalls s s' = [(CallGetDeployment ?k, errOf r)]
                 \<and> res = map_option (Wrapped ''check for forced cleanup'') (errOf r)"
  proof (cases "v = (True, None)")
    case True
    obtain r2 s2 where f: "forcedCleanup b pkg ?s1 = (r2, s2)"
      by (cases "forcedCleanup b pkg ?s1")
    from True nfc assms(2) f have "s' = s2"
      by (cases r2) (simp_all add: nukeIfNeeded_def)
    moreover from forcedCleanup_first_call [OF f] obtain err rest where
      "newCalls ?s1 s2 = (CallDelete (ClusterPackageObj pkg), err) # rest" by blast
    moreover have "Trace s2 = Trace ?s1 @ newCalls ?s1 s2"
      using forcedCleanup_cleanupRun [OF f] by (rule cleanupRun_newCalls)
    moreover have g1: "newCalls s ?s1 = [(CallGetDeployment ?k, errOf r)]"
      using t1 by (rule newCalls_eq)
    moreover have "Trace ?s1 = Trace s @ newCalls s ?s1" unfolding g1 by (rule t1)
    ultimately have "newCalls s s' =
        (CallGetDeployment ?k, errOf r) # (CallDelete (ClusterPackageObj pkg), err) # rest"
      using newCalls_trans [of ?s1 s s2] by simp
    with True show ?thesis by simp
  next
    case False
    with v consider e where "v = (False, Some e)" "errOf r = Some e"
      | "v = (False, None)" "errOf r = None" by auto
    then have "s' = ?s1 \<and> res = map_option (Wrapped ''check for forced cleanup'') (errOf r)"
    proof cases
      case 1
      with nfc assms(2) show ?thesis by (simp add: nukeIfNeeded_def)
    next
      case 2
      with nfc assms(2) show ?thesis by (simp add: nukeIfNeeded_def)
    qed
    with False newCalls_eq [OF t1] show ?thesis by simp
  qed
  show ?thesis using first second [unfolded v_def] by (rule conjI)
qed

theorem nukeIfNeeded_trigger_witness:
  "fst (needsForcedCleanup deploymentBootstrapper \<lparr>World = Inl NotFound, Trace = []\<rparr>)
     = (True, None)
   \<and> fst (needsForcedCleanup deploymentBootstrapper
            \<lparr>World = Inr \<lparr>Conditions = [\<lparr>CondType = ''Available'', CondStatus = ''False''\<rparr>]\<rparr>,
               Trace = []\<rparr>) = (True, None)
   \<and> fst (needsForcedCleanup deploymentBootstrapper
            \<lparr>World = Inr \<lparr>Conditions = [\<lparr>CondType = ''Available'', CondStatus = ''True''\<rparr>]\<rparr>,
               Trace = []\<rparr>) = (False, None)
   \<and> Trace (snd (nukeIfNeeded deploymentBootstrapper stuckPackage
            \<lparr>World = Inr \<lparr>Conditions = [\<lparr>CondType = ''Available'', CondStatus = ''True''\<rparr>]\<rparr>,
               Trace = []\<rparr>))
       = [(CallGetDeployment
             \<lparr>KeyName = ''package-operator-manager'', KeyNamespace = ''package-operator-system''\<rparr>,
           None)]
   \<and> fst (nukeIfNeeded deploymentBootstrapper stuckPackage
            \<lparr>World = Inl (Other ''timeout''), Trace = []\<rparr>)
       = Some (Wrapped ''check for forced cleanup'' (Other ''timeout''))"
proof -
  let ?b = deploymentBootstrapper
  have g: "GetDeployment (client ?b)
             \<lparr>KeyName = ''package-operator-manager'', KeyNamespace = pkoNamespace ?b\<rparr>
             (World \<lparr>World = x, Trace = []\<rparr>) = (x, x)" for x
    by (simp add: deploymentBootstrapper_def deploymentClient_def)
  have ns: "pkoNamespace ?b = ''package-operator-system''"
    by (simp add: deploymentBootstrapper_def)
  note t = nukeIfNeeded_trigger [OF g surjective_pairing, of _ stuckPackage]
  have 1: "fst (needsForcedCleanup ?b \<lparr>World = Inl NotFound, Trace = []\<rparr>) = (True, None)"
    using t [of "Inl NotFound", THEN conjunct1] by (simp add: errOf_def IsNotFound_def)
  have 2: "fst (needsForcedCleanup ?b
            \<lparr>World = Inr \<lparr>Conditions = [\<lparr>CondType = ''Available'', CondStatus = ''False''\<rparr>]\<rparr>,
               Trace = []\<rparr>) = (True, None)"
    using t [of "Inr \<lparr>Conditions = [\<lparr>CondType = ''Available'', CondStatus = ''False''\<rparr>]\<rparr>",
        THEN conjunct1]
    by (simp add: errOf_def IsNotFound_def DeploymentAvailable_def ConditionFalse_def)
  have 3: "fst (needsForcedCleanup ?b
            \<lparr>World = Inr \<lparr>Conditions = [\<lparr>CondType = ''Available'', CondStatus = ''True''\<rparr>]\<rparr>,
               Trace = []\<rparr>) = (False, None)"
    using t [of "Inr \<lparr>Conditions = [\<lparr>CondType = ''Available'', CondStatus = ''True''\<rparr>]\<rparr>",
        THEN conjunct1]
    by (simp add: errOf_def IsNotFound_def DeploymentAvailable_def ConditionFalse_def)
  have 4: "Trace (snd (nukeIfNeeded ?b stuckPackage
            \<lparr>World = Inr \<lparr>Conditions = [\<lparr>CondType = ''Available'', CondStatus = ''True''\<rparr>]\<rparr>,
               Trace = []\<rparr>))
       = [(CallGetDeployment
             \<lparr>KeyName = ''package-operator-manager'', KeyNamespace = ''package-operator-system''\<rparr>,
           None)]"
    using t [of "Inr \<lparr>Conditions = [\<lparr>CondType = ''Available'', CondStatus = ''True''\<rparr>]\<rparr>",
        THEN conjunct2]
    by (simp add: 3 ns errOf_def newCalls_def)
  have 5: "fst (needsForcedCleanup ?b \<lparr>World = Inl (Other ''timeout''), Trace = []\<rparr>)
      = (False, Some (Other ''timeout''))"
    using t [of "Inl (Other ''timeout'')", THEN conjunct1] by (simp add: errOf_def IsNotFound_def)
  have 6: "fst (nukeIfNeeded ?b stuckPackage \<lparr>World = Inl (Other ''timeout''), Trace = []\<rparr>)
       = Some (Wrapped ''check for forced cleanup'' (Other ''timeout''))"
    using t [of "Inl (Other ''timeout'')", THEN conjunct2] by (simp add: 5 errOf_def)
  from 1 2 3 4 6 show ?thesis by blast
qed

text \<open>
  C3, as stated, fails: with the Deployment absent (the Get reports NotFound)
  \<open>needsForcedCleanup\<close> answers true, and \<open>nukeIfNeeded\<close> runs the cascade, which
  deletes the ClusterPackage and what it owns.
\<close>

theorem absent_deployment_triggers_cleanup:
  "fst (needsForcedCleanup storeBootstrapper
          \<lparr>World = stuckStore\<lparr>Workload := Inl NotFound\<rparr>, Trace = []\<rparr>) = (True, None)
   \<and> fst (nukeIfNeeded storeBootstrapper stuckPackage
            \<lparr>World = stuckStore\<lparr>Workload := Inl NotFound\<rparr>, Trace = []\<rparr>) = None
   \<and> map objName (deletedObjects (Trace (snd (nukeIfNeeded storeBootstrapper stuckPackage
            \<lparr>World = stuckStore\<lparr>Workload := Inl NotFound\<rparr>, Trace = []\<rparr>))))
       = [''package-operator'', ''package-operator'', ''package-operator-1'']
   \<and> Stored (World (snd (nukeIfNeeded storeBootstrapper stuckPackage
            \<lparr>World = stuckStore\<lparr>Workload := Inl NotFound\<rparr>, Trace = []\<rparr>))) = []"
  by code_simp

section \<open>Properties of the creates\<close>

lemma doCreate_trace:
  "doCreate c obj s = (err, s') \<Longrightarrow> Trace s' = Trace s @ [(CallCreate obj, err)]"
  by (auto simp add: doCreate_def logged_def split: prod.splits)

lemma ensureCRDs_run:
  "ensureCRDs b l crds s = (res, s') \<Longrightarrow>
     \<exists>new. Trace s' = Trace s @ new
       \<and> map fst new =
           map (\<lambda>crd. CallCreate (UnstructuredObj (withCacheLabel l crd))) (take (length new) crds)
       \<and> (case res of
             None \<Rightarrow> length new = length crds \<and> list_all createAbsorbed new
           | Some e \<Rightarrow> new \<noteq> [] \<and> snd (last new) = Some e \<and> \<not> isAlreadyExistsE e
                       \<and> list_all createAbsorbed (butlast new))"
proof (induction crds arbitrary: s)
  case Nil
  then show ?case by simp
next
  case (Cons crd crds)
  let ?obj = "UnstructuredObj (withCacheLabel l crd)"
  obtain err s1 where c: "doCreate (client b) ?obj s = (err, s1)"
    by (cases "doCreate (client b) ?obj s")
  note t = doCreate_trace [OF c]
  show ?case
  proof (cases "err \<noteq> None \<and> \<not> IsAlreadyExists err")
    case True
    with Cons.prems c have r: "res = err" "s' = s1" by auto
    from True obtain e where e: "err = Some e" "\<not> isAlreadyExistsE e"
      by (auto simp add: IsAlreadyExists_def)
    from t r e have "Trace s' = Trace s @ [(CallCreate ?obj, Some e)]" by simp
    with r e show ?thesis by (intro exI [of _ "[(CallCreate ?obj, Some e)]"]) simp
  next
    case False
    with Cons.prems c have "ensureCRDs b l crds s1 = (res, s')" by auto
    from Cons.IH [OF this] obtain new where new: "Trace s' = Trace s1 @ new"
      "map fst new =
         map (\<lambda>crd. CallCreate (UnstructuredObj (withCacheLabel l crd))) (take (length new) crds)"
      "case res of
         None \<Rightarrow> length new = length crds \<and> list_all createAbsorbed new
       | Some e \<Rightarrow> new \<noteq> [] \<and> snd (last new) = Some e \<and> \<not> isAlreadyExistsE e
                   \<and> list_all createAbsorbed (butlast new)"
      by blast
    from False have a: "createAbsorbed (CallCreate ?obj, err)"
      by (auto simp add: createAbsorbed_def)
    from new t a show ?thesis
      by (intro exI [of _ "(CallCreate ?obj, err) # new"])
         (auto split: option.splits)
  qed
qed

text \<open>
  C8. \<open>createPKOPackage\<close> succeeds when the Create of the ClusterPackage returns nil
  or AlreadyExists, and returns any other error wrapped. \<open>ensureCRDs\<close> sends one
  Create per CRD, in order, with the cache label set; it succeeds exactly when every
  Create returned nil or AlreadyExists, and otherwise stops at the first Create with
  another error and returns that error as it is.
\<close>

theorem creates_absorb_AlreadyExists:
  assumes "Create (client b)
             (ClusterPackageObj
                \<lparr>Name = packageOperatorClusterPackageName, Finalizers = [],
                 DeletionTimestamp = None, Image = selfBootstrapImage b,
                 Config = getPKOConfigFromEnvironment pkoConfig\<rparr>) (World s) = (err, w)"
    and "ensureCRDs b l crds s = (res, s')"
  shows "(err = None \<or> IsAlreadyExists err \<longrightarrow>
            (\<exists>pkg. fst (createPKOPackage b pkoConfig s) = Inr pkg))
         \<and> (\<forall>e. err = Some e \<and> \<not> isAlreadyExistsE e \<longrightarrow>
               fst (createPKOPackage b pkoConfig s)
                 = Inl (Wrapped ''creating Package Operator ClusterPackage'' e))
         \<and> Trace s' = Trace s @ newCalls s s'
         \<and> map fst (newCalls s s') =
               map (\<lambda>crd. CallCreate (UnstructuredObj (withCacheLabel l crd)))
                 (take (length (newCalls s s')) crds)
         \<and> (res = None \<longrightarrow>
               length (newCalls s s') = length crds \<and> list_all createAbsorbed (newCalls s s'))
         \<and> (\<forall>e. res = Some e \<longrightarrow>
               newCalls s s' \<noteq> [] \<and> snd (last (newCalls s s')) = Some e
               \<and> \<not> isAlreadyExistsE e \<and> list_all createAbsorbed (butlast (newCalls s s')))"
proof -
  from ensureCRDs_run [OF assms(2)] obtain new where new: "Trace s' = Trace s @ new"
    "map fst new =
       map (\<lambda>crd. CallCreate (UnstructuredObj (withCacheLabel l crd))) (take (length new) crds)"
    "case res of
       None \<Rightarrow> length new = length crds \<and> list_all createAbsorbed new
     | Some e \<Rightarrow> new \<noteq> [] \<and> snd (last new) = Some e \<and> \<not> isAlreadyExistsE e
                 \<and> list_all createAbsorbed (butlast new)"
    by blast
  from new(1) have n: "newCalls s s' = new" by (rule newCalls_eq)
  have 1: "err = None \<or> IsAlreadyExists err \<longrightarrow>
            (\<exists>pkg. fst (createPKOPackage b pkoConfig s) = Inr pkg)"
    using assms(1) by (auto simp add: createPKOPackage_def doCreate_def Let_def)
  have 2: "\<forall>e. err = Some e \<and> \<not> isAlreadyExistsE e \<longrightarrow>
               fst (createPKOPackage b pkoConfig s)
                 = Inl (Wrapped ''creating Package Operator ClusterPackage'' e)"
    using assms(1)
    by (auto simp add: createPKOPackage_def doCreate_def Let_def IsAlreadyExists_def Errorf_def)
  from new(3) have 3: "res = None \<longrightarrow> length new = length crds \<and> list_all createAbsorbed new"
    "\<forall>e. res = Some e \<longrightarrow> new \<noteq> [] \<and> snd (last new) = Some e
               \<and> \<not> isAlreadyExistsE e \<and> list_all createAbsorbed (butlast new)"
    by (auto split: option.splits)
  from 1 2 3 new(1,2) show ?thesis unfolding n by blast
qed

theorem creates_absorb_AlreadyExists_witness:
  "(\<exists>pkg. fst (createPKOPackage createBootstrapper ''{}''
                  \<lparr>World = [Some AlreadyExists], Trace = []\<rparr>) = Inr pkg)
   \<and> fst (createPKOPackage createBootstrapper ''{}'' \<lparr>World = [Some Conflict], Trace = []\<rparr>)
       = Inl (Wrapped ''creating Package Operator ClusterPackage'' Conflict)
   \<and> list_all createAbsorbed
       (Trace (snd (ensureCRDs createBootstrapper ''package-operator.run/cache''
                      [\<lparr>UName = ''a'', ULabels = None\<rparr>, \<lparr>UName = ''b'', ULabels = None\<rparr>]
                      \<lparr>World = [Some AlreadyExists], Trace = []\<rparr>)))
   \<and> snd (last (Trace (snd (ensureCRDs createBootstrapper ''package-operator.run/cache''
                      [\<lparr>UName = ''a'', ULabels = None\<rparr>, \<lparr>UName = ''b'', ULabels = None\<rparr>,
                       \<lparr>UName = ''c'', ULabels = None\<rparr>]
                      \<lparr>World = [Some AlreadyExists, Some (Other ''boom'')], Trace = []\<rparr>))))
       = Some (Other ''boom'')"
proof -
  let ?b = createBootstrapper
  let ?l = "''package-operator.run/cache''"
  have c: "Create (client ?b) obj (World \<lparr>World = r # rs, Trace = []\<rparr>) = (r, rs)" for obj r rs
    by (simp add: createBootstrapper_def createClient_def)
  have nc: "newCalls \<lparr>World = w, Trace = []\<rparr> x = Trace x"
    for w :: "error option list" and x
    by (simp add: newCalls_def)
  note T = creates_absorb_AlreadyExists [where b = ?b and pkoConfig = "''{}''", OF c surjective_pairing]
  have 1: "\<exists>pkg. fst (createPKOPackage ?b ''{}'' \<lparr>World = [Some AlreadyExists], Trace = []\<rparr>) = Inr pkg"
    using T [of "Some AlreadyExists" "[]" ?l "[]"] by (simp add: IsAlreadyExists_def)
  have 2: "fst (createPKOPackage ?b ''{}'' \<lparr>World = [Some Conflict], Trace = []\<rparr>)
       = Inl (Wrapped ''creating Package Operator ClusterPackage'' Conflict)"
    using T [of "Some Conflict" "[]" ?l "[]"] by simp
  let ?s3 = "\<lparr>World = [Some AlreadyExists], Trace = []\<rparr> :: error option list state"
  let ?E3 = "ensureCRDs ?b ?l [\<lparr>UName = ''a'', ULabels = None\<rparr>, \<lparr>UName = ''b'', ULabels = None\<rparr>] ?s3"
  have r3: "fst ?E3 = None" by code_simp
  have 3: "list_all createAbsorbed (Trace (snd ?E3))"
    using T [of "Some AlreadyExists" "[]" ?l "[\<lparr>UName = ''a'', ULabels = None\<rparr>, \<lparr>UName = ''b'', ULabels = None\<rparr>]"]
    unfolding nc r3 by blast
  let ?s4 = "\<lparr>World = [Some AlreadyExists, Some (Other ''boom'')], Trace = []\<rparr> :: error option list state"
  let ?E4 = "ensureCRDs ?b ?l [\<lparr>UName = ''a'', ULabels = None\<rparr>, \<lparr>UName = ''b'', ULabels = None\<rparr>,
                       \<lparr>UName = ''c'', ULabels = None\<rparr>] ?s4"
  have r4: "fst ?E4 = Some (Other ''boom'')" by code_simp
  have 4: "snd (last (Trace (snd ?E4))) = Some (Other ''boom'')"
    using T [of "Some AlreadyExists" "[Some (Other ''boom'')]" ?l "[\<lparr>UName = ''a'', ULabels = None\<rparr>, \<lparr>UName = ''b'', ULabels = None\<rparr>,
                       \<lparr>UName = ''c'', ULabels = None\<rparr>]"]
    unfolding nc r4 by blast
  from 1 2 3 4 show ?thesis by blast
qed

section \<open>Properties of the revision repair\<close>

lemma cosByName_from_Some:
  "cosByName_from items k m n = Some j \<Longrightarrow>
     m n = Some j \<or> (k \<le> j \<and> j < k + length items \<and> Name (items ! (j - k)) = n)"
proof (induction items arbitrary: k m)
  case Nil
  then show ?case by simp
next
  case (Cons cos rest)
  from Cons.prems have "cosByName_from rest (Suc k) (m(Name cos \<mapsto> k)) n = Some j"
    by simp
  from Cons.IH [OF this]
  have "(m(Name cos \<mapsto> k)) n = Some j
        \<or> (Suc k \<le> j \<and> j < Suc k + length rest \<and> Name (rest ! (j - Suc k)) = n)" .
  then show ?case
  proof
    assume "(m(Name cos \<mapsto> k)) n = Some j"
    then show ?thesis by (auto split: if_splits)
  next
    assume a: "Suc k \<le> j \<and> j < Suc k + length rest \<and> Name (rest ! (j - Suc k)) = n"
    then have "j - k = Suc (j - Suc k)" by arith
    with a show ?thesis by simp
  qed
qed

lemma cosByName_from_None:
  "cosByName_from items k m n = None \<Longrightarrow> m n = None \<and> n \<notin> Name ` set items"
proof (induction items arbitrary: k m)
  case Nil
  then show ?case by simp
next
  case (Cons cos rest)
  from Cons.prems have "cosByName_from rest (Suc k) (m(Name cos \<mapsto> k)) n = None"
    by simp
  from Cons.IH [OF this]
  have "(m(Name cos \<mapsto> k)) n = None \<and> n \<notin> Name ` set rest" .
  then show ?case by (auto split: if_splits)
qed

lemma cosByName_Some:
  "cosByName items n = Some j \<Longrightarrow> j < length items \<and> Name (items ! j) = n"
  using cosByName_from_Some [of items 0 Map.empty n j] by (simp add: cosByName_def)

lemma cosByName_listed:
  "n \<in> Name ` set items \<Longrightarrow> \<exists>j. cosByName items n = Some j \<and> j < length items"
  using cosByName_from_None [of items 0 Map.empty n] cosByName_Some [of items n]
  by (cases "cosByName items n") (auto simp add: cosByName_def)

lemma Max_insert_less:
  "finite S \<Longrightarrow> (a::int) < b \<Longrightarrow> Max (insert a (insert b S)) = Max (insert b S)"
proof -
  assume fin: "finite S" and lt: "a < b"
  have "b \<le> Max (insert b S)" using fin by simp
  with lt have "max a (Max (insert b S)) = Max (insert b S)" by simp
  then show ?thesis using fin by simp
qed

lemma Max_insert_ge:
  "finite S \<Longrightarrow> \<not> (a::int) < b \<Longrightarrow> Max (insert a (insert b S)) = Max (insert a S)"
  by (cases "S = {}") (auto simp add: max_def)

lemma highestRevisionNumber_loop_max:
  "\<forall>p \<in> set prevs. \<exists>j. m p = Some j \<and> j < length items \<Longrightarrow>
     \<exists>h. highestRevisionNumber_loop m items prevs acc = Inr h
       \<and> sint h = Max (insert (sint acc)
                        ((\<lambda>p. sint (Revision (items ! the (m p)))) ` set prevs))"
proof (induction prevs arbitrary: acc)
  case Nil
  then show ?case by simp
next
  case (Cons prev prevs)
  from Cons.prems obtain j where j: "m prev = Some j" "j < length items" by auto
  let ?S = "(\<lambda>p. sint (Revision (items ! the (m p)))) ` set prevs"
  have fin: "finite ?S" by simp
  from Cons.prems have rest: "\<forall>p \<in> set prevs. \<exists>j. m p = Some j \<and> j < length items" by simp
  show ?case
  proof (cases "acc <s Revision (items ! j)")
    case True
    then have lt: "sint acc < sint (Revision (items ! j))" by (simp add: word_sless_alt)
    from Cons.IH [OF rest, of "Revision (items ! j)"] obtain h where
      h: "highestRevisionNumber_loop m items prevs (Revision (items ! j)) = Inr h"
         "sint h = Max (insert (sint (Revision (items ! j))) ?S)" by blast
    from h j True Max_insert_less [OF fin lt] show ?thesis by simp
  next
    case False
    then have ge: "\<not> sint acc < sint (Revision (items ! j))" by (simp add: word_sless_alt)
    from Cons.IH [OF rest, of acc] obtain h where
      h: "highestRevisionNumber_loop m items prevs acc = Inr h"
         "sint h = Max (insert (sint acc) ?S)" by blast
    from h j False Max_insert_ge [OF fin ge] show ?thesis by simp
  qed
qed

lemma repairOne_length: "length (repairOne m i items) = length items"
  by (simp add: repairOne_def split: sum.splits)

lemma repairOne_other: "j \<noteq> i \<Longrightarrow> repairOne m i items ! j = items ! j"
  by (simp add: repairOne_def split: sum.splits)

lemma fold_repairOne_length: "length (fold (repairOne m) is items) = length items"
  by (induction "is" arbitrary: items) (simp_all add: repairOne_length)

lemma fold_repairOne_untouched:
  "j \<notin> set is \<Longrightarrow> fold (repairOne m) is items ! j = items ! j"
  by (induction "is" arbitrary: items) (simp_all add: repairOne_other)

lemma doStatusPatch_echo:
  assumes "\<forall>cos w. \<exists>w'. StatusPatch c cos w = (Inr cos, w')"
  shows "\<exists>s1. doStatusPatch c cos s = (Inr cos, s1)
           \<and> Trace s1 = Trace s @ [(CallStatusPatch cos, None)]"
proof -
  from assms obtain w' where "StatusPatch c cos (World s) = (Inr cos, w')" by blast
  then show ?thesis by (simp add: doStatusPatch_def logged_def errOf_def)
qed

lemma fixMissingRevisionNumbers_loop_fold:
  assumes echo: "\<forall>cos w. \<exists>w'. StatusPatch c cos w = (Inr cos, w')"
  shows "distinct is \<Longrightarrow> \<forall>i \<in> set is. i < length items \<Longrightarrow>
     \<forall>i \<in> set is. looksStuck (items ! i) \<longrightarrow>
        (\<forall>p \<in> set (Previous (items ! i)). \<exists>j. m p = Some j \<and> j < length items) \<Longrightarrow>
     \<exists>s'. fixMissingRevisionNumbers_loop c m is items s
             = (Inr None, fold (repairOne m) is items, s')
       \<and> Trace s' = Trace s @
           map (\<lambda>i. (CallStatusPatch (fold (repairOne m) is items ! i), None))
             (filter (\<lambda>i. looksStuck (items ! i)) is)"
proof (induction "is" arbitrary: items s)
  case Nil
  then show ?case by simp
next
  case (Cons i "is")
  from Cons.prems have d: "distinct is" "i \<notin> set is" "i < length items"
    "\<forall>j \<in> set is. j < length items" by auto
  show ?case
  proof (cases "looksStuck (items ! i)")
    case False
    then have r: "repairOne m i items = items" by (simp add: repairOne_def)
    from Cons.prems have "\<forall>i \<in> set is. looksStuck (items ! i) \<longrightarrow>
        (\<forall>p \<in> set (Previous (items ! i)). \<exists>j. m p = Some j \<and> j < length items)" by simp
    from Cons.IH [OF d(1) d(4) this, of s] False r show ?thesis by simp
  next
    case True
    with Cons.prems
    have "\<forall>p \<in> set (Previous (items ! i)). \<exists>j. m p = Some j \<and> j < length items" by simp
    from highestRevisionNumber_loop_max [OF this, of 0] obtain h where
      h: "highestRevisionNumber m items (Previous (items ! i)) = Inr h"
      by (auto simp add: highestRevisionNumber_def)
    let ?cos = "(items ! i)\<lparr>Revision := h + 1\<rparr>"
    let ?items1 = "items[i := ?cos]"
    from True h have r: "repairOne m i items = ?items1" by (simp add: repairOne_def)
    from doStatusPatch_echo [OF echo, of ?cos s] obtain s1 where
      s1: "doStatusPatch c ?cos s = (Inr ?cos, s1)"
          "Trace s1 = Trace s @ [(CallStatusPatch ?cos, None)]" by blast
    have same: "?items1 ! j = items ! j" if "j \<in> set is" for j
      using that d(2) by (metis nth_list_update_neq)
    have len: "\<forall>j \<in> set is. j < length ?items1" using d(4) by simp
    have res: "\<forall>j \<in> set is. looksStuck (?items1 ! j) \<longrightarrow>
        (\<forall>p \<in> set (Previous (?items1 ! j)). \<exists>k. m p = Some k \<and> k < length ?items1)"
      using Cons.prems(3) same by simp
    from Cons.IH [OF d(1) len res, of s1] obtain s' where
      s': "fixMissingRevisionNumbers_loop c m is ?items1 s1
             = (Inr None, fold (repairOne m) is ?items1, s')"
          "Trace s' = Trace s1 @
             map (\<lambda>j. (CallStatusPatch (fold (repairOne m) is ?items1 ! j), None))
               (filter (\<lambda>j. looksStuck (?items1 ! j)) is)" by blast
    have f: "filter (\<lambda>j. looksStuck (?items1 ! j)) is = filter (\<lambda>j. looksStuck (items ! j)) is"
      by (rule filter_cong) (simp_all add: same)
    have "fold (repairOne m) is ?items1 ! i = ?items1 ! i"
      using d(2) by (rule fold_repairOne_untouched)
    then have hd: "fold (repairOne m) is ?items1 ! i = ?cos" using d(3) by simp
    have run: "fixMissingRevisionNumbers_loop c m (i # is) items s
        = fixMissingRevisionNumbers_loop c m is ?items1 s1"
      using True h s1(1) by simp
    show ?thesis
      unfolding run using s' s1(2) True
      by (simp add: r f hd)
  qed
qed

lemma fold_repairOne_at:
  assumes "i < length items"
  shows "fold (repairOne m) [0..<length items] items ! i =
           repairOne m i (take i (fold (repairOne m) [0..<length items] items) @ drop i items) ! i"
proof -
  let ?N = "length items"
  let ?final = "fold (repairOne m) [0..<?N] items"
  let ?before = "fold (repairOne m) [0..<i] items"
  have split: "[0..<?N] = [0..<i] @ i # [Suc i..<?N]"
    using assms by (metis le0 less_imp_le_nat upt_add_eq_append upt_conv_Cons le_add_diff_inverse)
  then have final: "?final = fold (repairOne m) [Suc i..<?N] (repairOne m i ?before)"
    by (metis fold_append fold_simps(2) comp_apply)
  have at: "?final ! i = repairOne m i ?before ! i"
    unfolding final by (rule fold_repairOne_untouched) simp
  have "?before = take i ?final @ drop i items"
  proof (rule nth_equalityI)
    show "length ?before = length (take i ?final @ drop i items)"
      using assms by (simp add: fold_repairOne_length)
  next
    fix j assume "j < length ?before"
    then have j: "j < ?N" by (simp add: fold_repairOne_length)
    show "?before ! j = (take i ?final @ drop i items) ! j"
    proof (cases "j < i")
      case True
      then have "?final ! j = repairOne m i ?before ! j"
        unfolding final by (intro fold_repairOne_untouched) simp
      also have "\<dots> = ?before ! j" using True by (simp add: repairOne_other)
      finally show ?thesis using True assms by (simp add: nth_append fold_repairOne_length)
    next
      case False
      then have "?before ! j = items ! j" by (intro fold_repairOne_untouched) simp
      then show ?thesis using False assms j
        by (simp add: nth_append fold_repairOne_length min_def)
    qed
  qed
  with at show ?thesis by simp
qed

text \<open>
  C1 (amended). Let the list succeed with \<open>items\<close>, let every status patch be
  answered with the object as sent, and let every previous reference of a stuck item
  name a listed item. Then the repair returns no error and leaves as many items as were
  listed. An item that is not stuck is left as it was. A stuck item keeps all its fields
  but the revision, which becomes one more (in \<open>int64\<close>) than the highest of 0 and
  the revisions of the items its previous references point to, read when the item is
  processed: items listed before it have their repaired revision by then, items listed
  after it their listed one. The calls are the list, then one status patch for each
  stuck item, in list order, with the repaired item.
\<close>

theorem fixMissingRevisionNumbers_repairs:
  assumes list: "ListClusterObjectSets (client b)
                   [(''package-operator.run/instance'', ''package-operator'')] (World s)
                 = (Inr items, w)"
    and echo: "\<forall>cos w. \<exists>w'. StatusPatch (client b) cos w = (Inr cos, w')"
    and resolve: "\<forall>cos \<in> set items. looksStuck cos \<longrightarrow> set (Previous cos) \<subseteq> Name ` set items"
    and run: "fixMissingRevisionNumbers b s = (res, final, s')"
  shows "res = Inr None \<and> length final = length items
         \<and> (\<forall>i < length items.
               if looksStuck (items ! i)
               then final ! i = (items ! i)\<lparr>Revision := Revision (final ! i)\<rparr>
                    \<and> sint (Revision (final ! i) - 1) =
                        Max (insert 0
                          ((\<lambda>p. sint (Revision ((take i final @ drop i items)
                                                   ! the (cosByName items p))))
                             ` set (Previous (items ! i))))
               else final ! i = items ! i)
         \<and> newCalls s s' =
             (CallList ClusterObjectSetKind
                [(''package-operator.run/instance'', ''package-operator'')], None)
             # map (\<lambda>i. (CallStatusPatch (final ! i), None))
                 (filter (\<lambda>i. looksStuck (items ! i)) [0..<length items])"
proof -
  let ?ls = "[(''package-operator.run/instance'', ''package-operator'')]"
  let ?N = "length items"
  let ?m = "cosByName items"
  let ?s1 = "logged (CallList ClusterObjectSetKind ?ls) None w s"
  have known: "\<exists>j. ?m p = Some j \<and> j < ?N"
    if "i < ?N" "looksStuck (items ! i)" "p \<in> set (Previous (items ! i))" for i p
  proof -
    from that(1) have "items ! i \<in> set items" by simp
    with resolve that(2,3) have "p \<in> Name ` set items" by blast
    then show ?thesis by (rule cosByName_listed)
  qed
  from list run have loop:
    "fixMissingRevisionNumbers_loop (client b) ?m [0..<?N] items ?s1 = (res, final, s')"
    by (simp add: fixMissingRevisionNumbers_def doListClusterObjectSets_def errOf_def)
  have "\<forall>i \<in> set [0..<?N]. looksStuck (items ! i) \<longrightarrow>
          (\<forall>p \<in> set (Previous (items ! i)). \<exists>j. ?m p = Some j \<and> j < ?N)"
    using known by simp
  from fixMissingRevisionNumbers_loop_fold [OF echo _ _ this, of ?s1] loop
  have res: "res = Inr None" and final: "final = fold (repairOne ?m) [0..<?N] items"
    and trace: "Trace s' = Trace ?s1 @
           map (\<lambda>i. (CallStatusPatch (final ! i), None))
             (filter (\<lambda>i. looksStuck (items ! i)) [0..<?N])"
    by auto
  have len: "length final = ?N" by (simp add: final fold_repairOne_length)
  have "Trace s' = Trace s @
           (CallList ClusterObjectSetKind ?ls, None)
           # map (\<lambda>i. (CallStatusPatch (final ! i), None))
               (filter (\<lambda>i. looksStuck (items ! i)) [0..<?N])"
    using trace by (simp add: logged_def)
  then have calls: "newCalls s s' =
           (CallList ClusterObjectSetKind ?ls, None)
           # map (\<lambda>i. (CallStatusPatch (final ! i), None))
               (filter (\<lambda>i. looksStuck (items ! i)) [0..<?N])"
    by (rule newCalls_eq)
  have each: "if looksStuck (items ! i)
               then final ! i = (items ! i)\<lparr>Revision := Revision (final ! i)\<rparr>
                    \<and> sint (Revision (final ! i) - 1) =
                        Max (insert 0
                          ((\<lambda>p. sint (Revision ((take i final @ drop i items) ! the (?m p))))
                             ` set (Previous (items ! i))))
               else final ! i = items ! i"
    if i: "i < ?N" for i
  proof -
    let ?B = "take i final @ drop i items"
    have lenB: "length ?B = ?N" using i len by simp
    have Bi: "?B ! i = items ! i" using i len by (simp add: nth_append)
    have at: "final ! i = repairOne ?m i ?B ! i"
      using fold_repairOne_at [OF i, of ?m] by (simp add: final)
    show ?thesis
    proof (cases "looksStuck (items ! i)")
      case False
      with at Bi show ?thesis by (simp add: repairOne_def)
    next
      case True
      have "\<forall>p \<in> set (Previous (items ! i)). \<exists>j. ?m p = Some j \<and> j < length ?B"
        using known [OF i True] lenB by simp
      from highestRevisionNumber_loop_max [OF this, of 0] obtain h where
        h: "highestRevisionNumber ?m ?B (Previous (items ! i)) = Inr h"
           "sint h = Max (insert 0
              ((\<lambda>p. sint (Revision (?B ! the (?m p)))) ` set (Previous (items ! i))))"
        by (auto simp add: highestRevisionNumber_def)
      from True h(1) Bi at i lenB have "final ! i = (items ! i)\<lparr>Revision := h + 1\<rparr>"
        by (simp add: repairOne_def)
      with h(2) True show ?thesis by simp
    qed
  qed
  from res len each calls show ?thesis by blast
qed

theorem fixMissingRevisionNumbers_repairs_witness:
  "fst (fixMissingRevisionNumbers snapshotBootstrapper
          \<lparr>World = [objectSet ''x'' [] 1 ''Available'', objectSet ''a'' [''x''] 0 ''Pending'',
                    objectSet ''b'' [''a''] 0 ''Pending''], Trace = []\<rparr>) = Inr None
   \<and> length (fst (snd (fixMissingRevisionNumbers snapshotBootstrapper
          \<lparr>World = [objectSet ''x'' [] 1 ''Available'', objectSet ''a'' [''x''] 0 ''Pending'',
                    objectSet ''b'' [''a''] 0 ''Pending''], Trace = []\<rparr>))) = 3
   \<and> fst (snd (fixMissingRevisionNumbers snapshotBootstrapper
          \<lparr>World = [objectSet ''x'' [] 1 ''Available'', objectSet ''a'' [''x''] 0 ''Pending'',
                    objectSet ''b'' [''a''] 0 ''Pending''], Trace = []\<rparr>)) ! 0
       = objectSet ''x'' [] 1 ''Available''
   \<and> sint (Revision (fst (snd (fixMissingRevisionNumbers snapshotBootstrapper
          \<lparr>World = [objectSet ''x'' [] 1 ''Available'', objectSet ''a'' [''x''] 0 ''Pending'',
                    objectSet ''b'' [''a''] 0 ''Pending''], Trace = []\<rparr>)) ! 2) - 1) = 2"
proof -
  let ?items = "[objectSet ''x'' [] 1 ''Available'', objectSet ''a'' [''x''] 0 ''Pending'',
                 objectSet ''b'' [''a''] 0 ''Pending'']"
  let ?s = "\<lparr>World = ?items, Trace = []\<rparr>"
  let ?X = "fixMissingRevisionNumbers snapshotBootstrapper ?s"
  have list: "ListClusterObjectSets (client snapshotBootstrapper)
                [(''package-operator.run/instance'', ''package-operator'')] (World ?s)
              = (Inr ?items, ?items)"
    by (simp add: snapshotBootstrapper_def snapshotClient_def)
  have echo: "\<forall>cos w. \<exists>w'. StatusPatch (client snapshotBootstrapper) cos w = (Inr cos, w')"
    by (simp add: snapshotBootstrapper_def snapshotClient_def)
  have resolve: "\<forall>cos \<in> set ?items. looksStuck cos \<longrightarrow> set (Previous cos) \<subseteq> Name ` set ?items"
    by (simp add: objectSet_def looksStuck_def)
  have run: "?X = (fst ?X, fst (snd ?X), snd (snd ?X))" by simp
  note T = fixMissingRevisionNumbers_repairs [OF list echo resolve run]
  have fin: "fst (snd ?X) = [objectSet ''x'' [] 1 ''Available'', objectSet ''a'' [''x''] 2 ''Pending'',
                 objectSet ''b'' [''a''] 3 ''Pending'']"
    by code_simp
  from T have 1: "fst ?X = Inr None" and 2: "length (fst (snd ?X)) = 3" by simp_all
  from T have each: "\<forall>i < length ?items.
               if looksStuck (?items ! i)
               then fst (snd ?X) ! i = (?items ! i)\<lparr>Revision := Revision (fst (snd ?X) ! i)\<rparr>
                    \<and> sint (Revision (fst (snd ?X) ! i) - 1) =
                        Max (insert 0
                          ((\<lambda>p. sint (Revision ((take i (fst (snd ?X)) @ drop i ?items)
                                                   ! the (cosByName ?items p))))
                             ` set (Previous (?items ! i))))
               else fst (snd ?X) ! i = ?items ! i"
    by blast
  have n0: "\<not> looksStuck (?items ! 0)" by (simp add: objectSet_def looksStuck_def)
  have s2: "looksStuck (?items ! 2)"
    by (simp add: objectSet_def looksStuck_def ObjectSetStatusPhasePending_def)
  from each [rule_format, of 0] n0 have 3: "fst (snd ?X) ! 0 = objectSet ''x'' [] 1 ''Available''"
    by simp
  from each [rule_format, of 2] s2
  have "sint (Revision (fst (snd ?X) ! 2) - 1) =
          Max (insert 0
            ((\<lambda>p. sint (Revision ((take 2 (fst (snd ?X)) @ drop 2 ?items)
                                     ! the (cosByName ?items p))))
               ` set (Previous (?items ! 2))))"
    by simp
  also have "\<dots> = 2"
    unfolding fin by (simp add: objectSet_def cosByName_def)
  finally have 4: "sint (Revision (fst (snd ?X) ! 2) - 1) = 2" .
  from 1 2 3 4 show ?thesis by blast
qed

text \<open>
  C1, as stated, fails. In the first run \<open>b\<close> references \<open>a\<close>, which is listed with
  revision 0 and is itself stuck: the highest revision among the previous references of
  \<open>b\<close> in the listed snapshot is 0, yet \<open>b\<close> gets revision 3, one more than the
  revision 2 that the repair has given \<open>a\<close> just before. In the second run the same
  items are listed in the opposite order: \<open>b\<close> is processed first and gets revision 1,
  although \<open>a\<close> ends with revision 2.
\<close>

theorem repair_reads_repaired_revisions:
  "map Revision (fst (snd (fixMissingRevisionNumbers snapshotBootstrapper
          \<lparr>World = [objectSet ''x'' [] 1 ''Available'', objectSet ''a'' [''x''] 0 ''Pending'',
                    objectSet ''b'' [''a''] 0 ''Pending''], Trace = []\<rparr>))) = [1, 2, 3]
   \<and> highestRevisionNumber
         (cosByName [objectSet ''x'' [] 1 ''Available'', objectSet ''a'' [''x''] 0 ''Pending'',
                     objectSet ''b'' [''a''] 0 ''Pending''])
         [objectSet ''x'' [] 1 ''Available'', objectSet ''a'' [''x''] 0 ''Pending'',
          objectSet ''b'' [''a''] 0 ''Pending'']
         (Previous (objectSet ''b'' [''a''] 0 ''Pending'')) = Inr 0
   \<and> map Revision (fst (snd (fixMissingRevisionNumbers snapshotBootstrapper
          \<lparr>World = [objectSet ''b'' [''a''] 0 ''Pending'', objectSet ''a'' [''x''] 0 ''Pending'',
                    objectSet ''x'' [] 1 ''Available''], Trace = []\<rparr>))) = [1, 2, 1]"
  by code_simp

text \<open>
  C2. The only listed item is stuck and references \<open>a\<close>, which is not listed: the
  lookup gives the nil pointer, the read of its revision panics, and no patch is sent.
\<close>

theorem missing_ancestor_panics:
  "fixMissingRevisionNumbers snapshotBootstrapper
     \<lparr>World = [objectSet ''b'' [''a''] 0 ''Pending''], Trace = []\<rparr>
   = (Inl NilPointerDereference, [objectSet ''b'' [''a''] 0 ''Pending''],
      \<lparr>World = [objectSet ''b'' [''a''] 0 ''Pending''],
       Trace = [(CallList ClusterObjectSetKind
                   [(''package-operator.run/instance'', ''package-operator'')], None)]\<rparr>)"
  by code_simp

section \<open>Properties of the package controller\<close>

lemma newReconcileCalls_eq: "RTrace s' = RTrace s @ new \<Longrightarrow> newReconcileCalls s s' = new"
  by (simp add: newReconcileCalls_def)



lemma recordMetrics_trace:
  "RTrace (recordMetrics c err pkg s) =
     RTrace s @ (if err = None \<and> recorder c \<noteq> None then [(RecordPackageMetrics pkg, None)]
                 else [])"
  by (auto simp add: recordMetrics_def rlogged_def split: option.splits)

lemma RemoveFinalizer_object:
  "RemoveFinalizer c pkg finalizer w = ((pe, pkg1), w1)
     \<Longrightarrow> pkg1 = pkg\<lparr>Finalizers := removeAll finalizer (Finalizers pkg)\<rparr>"
  by (auto simp add: RemoveFinalizer_def Let_def split: if_splits prod.splits)

lemma handleDeletion_run:
  assumes "handleDeletion c pkg s = (err, pkg2, s2)"
  shows "\<exists>pe ue.
           RTrace s2 = RTrace s
             @ (FinalizerRemoval pkg loaderJobFinalizer, pe)
             # (if pe = None
                then [(PackageUpdate
                         (pkg\<lparr>Finalizers := removeAll loaderJobFinalizer (Finalizers pkg)\<rparr>), ue)]
                else [])
           \<and> err = (if pe = None then ue else pe)"
proof -
  let ?pkg1 = "pkg\<lparr>Finalizers := removeAll loaderJobFinalizer (Finalizers pkg)\<rparr>"
  obtain pe p1 w where rf0: "RemoveFinalizer c pkg loaderJobFinalizer (RWorld s) = ((pe, p1), w)"
    by (metis surj_pair)
  from RemoveFinalizer_object [OF rf0] rf0
  have rf: "RemoveFinalizer c pkg loaderJobFinalizer (RWorld s) = ((pe, ?pkg1), w)" by simp
  let ?s1 = "rlogged (FinalizerRemoval pkg loaderJobFinalizer) pe w s"
  obtain u w2 where u: "clientUpdate c ?pkg1 (RWorld ?s1) = (u, w2)"
    by (cases "clientUpdate c ?pkg1 (RWorld ?s1)")
  show ?thesis
  proof (cases pe)
    case (Some e)
    with assms rf
    have "RTrace s2 = RTrace s @ [(FinalizerRemoval pkg loaderJobFinalizer, pe)] \<and> err = pe"
      by (auto simp add: handleDeletion_def rlogged_def)
    with Some show ?thesis
      by (rule_tac x = pe in exI, rule_tac x = None in exI) simp
  next
    case None
    with assms rf u
    have "RTrace s2 = RTrace s @ [(FinalizerRemoval pkg loaderJobFinalizer, None),
                                   (PackageUpdate ?pkg1, errOf u)]
          \<and> err = errOf u"
      by (cases u) (auto simp add: handleDeletion_def rlogged_def errOf_def Let_def)
    then show ?thesis
      by (rule_tac x = None in exI, rule_tac x = "errOf u" in exI) simp
  qed
qed



lemma Reconcile_deleting:
  assumes get: "clientGet c req (RWorld s) = (Inr pkg, w)"
    and deleting: "\<not> timeIsZero (DeletionTimestamp pkg)"
    and run: "Reconcile c req s = ((res, err), s')"
  shows "\<exists>pe ue pkg2.
           res = zeroResult \<and> err = (if pe = None then ue else pe)
           \<and> newReconcileCalls s s' =
               (PackageGet req, None)
               # (FinalizerRemoval pkg loaderJobFinalizer, pe)
               # (if pe = None
                  then [(PackageUpdate
                           (pkg\<lparr>Finalizers := removeAll loaderJobFinalizer (Finalizers pkg)\<rparr>),
                         ue)]
                  else [])
               @ (if err = None \<and> recorder c \<noteq> None then [(RecordPackageMetrics pkg2, None)]
                  else [])"
proof -
  let ?s1 = "rlogged (PackageGet req) None w s"
  obtain derr pkg2 s2 where d: "handleDeletion c pkg ?s1 = (derr, pkg2, s2)"
    by (metis surj_pair)
  from handleDeletion_run [OF d] obtain pe ue where
    t: "RTrace s2 = RTrace ?s1
             @ (FinalizerRemoval pkg loaderJobFinalizer, pe)
             # (if pe = None
                then [(PackageUpdate
                         (pkg\<lparr>Finalizers := removeAll loaderJobFinalizer (Finalizers pkg)\<rparr>), ue)]
                else [])"
    and e: "derr = (if pe = None then ue else pe)" by blast
  from get deleting run d have "res = zeroResult \<and> err = derr
    \<and> s' = recordMetrics c derr pkg2 s2"
    by (cases derr) (auto simp add: Reconcile_def Let_def)
  then have r: "res = zeroResult" "err = derr" "s' = recordMetrics c derr pkg2 s2"
    by simp_all
  have "RTrace s' = RTrace s @
               (PackageGet req, None)
               # (FinalizerRemoval pkg loaderJobFinalizer, pe)
               # (if pe = None
                  then [(PackageUpdate
                           (pkg\<lparr>Finalizers := removeAll loaderJobFinalizer (Finalizers pkg)\<rparr>),
                         ue)]
                  else [])
               @ (if err = None \<and> recorder c \<noteq> None then [(RecordPackageMetrics pkg2, None)]
                  else [])"
    unfolding r(3) recordMetrics_trace t r(2) by (simp add: rlogged_def)
  from newReconcileCalls_eq [OF this] r e show ?thesis by blast
qed






text \<open>
  C6. For a package that is fetched with a deletion timestamp that is not zero,
  \<open>Reconcile\<close> returns the zero result and calls no sub-reconciler and no status
  update, whatever the chain holds. Its calls are the Get, the removal of the loader-job
  finalizer and, when the removal returned no error, the Update of the package, which
  carries the package without the loader-job finalizer; the metrics follow when no
  error is returned and there is a recorder. The error it returns is the error of the
  removal, or else that of the Update.
\<close>

theorem deletion_skips_forward_chain:
  assumes get: "clientGet c req (RWorld s) = (Inr pkg, w)"
    and deleting: "\<not> timeIsZero (DeletionTimestamp pkg)"
    and run: "Reconcile c req s = ((res, err), s')"
  shows "res = zeroResult
         \<and> (\<forall>i e. (SubReconcile i, e) \<notin> set (newReconcileCalls s s'))
         \<and> (\<forall>p e. (StatusUpdate p, e) \<notin> set (newReconcileCalls s s'))
         \<and> loaderJobFinalizer
             \<notin> set (Finalizers
                      (pkg\<lparr>Finalizers := removeAll loaderJobFinalizer (Finalizers pkg)\<rparr>))
         \<and> (\<exists>pe ue pkg2.
               err = (if pe = None then ue else pe)
               \<and> newReconcileCalls s s' =
                   (PackageGet req, None)
                   # (FinalizerRemoval pkg loaderJobFinalizer, pe)
                   # (if pe = None
                      then [(PackageUpdate
                               (pkg\<lparr>Finalizers :=
                                       removeAll loaderJobFinalizer (Finalizers pkg)\<rparr>),
                             ue)]
                      else [])
                   @ (if err = None \<and> recorder c \<noteq> None
                      then [(RecordPackageMetrics pkg2, None)] else []))"
proof -
  from Reconcile_deleting [OF get deleting run] obtain pe ue pkg2 where
    r: "res = zeroResult" and e: "err = (if pe = None then ue else pe)"
    and new: "newReconcileCalls s s' =
               (PackageGet req, None)
               # (FinalizerRemoval pkg loaderJobFinalizer, pe)
               # (if pe = None
                  then [(PackageUpdate
                           (pkg\<lparr>Finalizers := removeAll loaderJobFinalizer (Finalizers pkg)\<rparr>),
                         ue)]
                  else [])
               @ (if err = None \<and> recorder c \<noteq> None then [(RecordPackageMetrics pkg2, None)]
                  else [])"
    by blast
  have 1: "\<forall>i e. (SubReconcile i, e) \<notin> set (newReconcileCalls s s')"
    unfolding new by (auto split: if_splits)
  have 2: "\<forall>p e. (StatusUpdate p, e) \<notin> set (newReconcileCalls s s')"
    unfolding new by (auto split: if_splits)
  have 3: "loaderJobFinalizer
             \<notin> set (Finalizers
                      (pkg\<lparr>Finalizers := removeAll loaderJobFinalizer (Finalizers pkg)\<rparr>))"
    by simp
  from e new have 4: "\<exists>pe ue pkg2.
               err = (if pe = None then ue else pe)
               \<and> newReconcileCalls s s' =
                   (PackageGet req, None)
                   # (FinalizerRemoval pkg loaderJobFinalizer, pe)
                   # (if pe = None
                      then [(PackageUpdate
                               (pkg\<lparr>Finalizers :=
                                       removeAll loaderJobFinalizer (Finalizers pkg)\<rparr>),
                             ue)]
                      else [])
                   @ (if err = None \<and> recorder c \<noteq> None
                      then [(RecordPackageMetrics pkg2, None)] else [])"
    by blast
  from r 1 2 3 4 show ?thesis by (intro conjI)
qed

theorem deletion_skips_forward_chain_witness:
  "fst (fst (Reconcile (scriptedController (\<lambda>p. None) (\<lambda>p. None) [requeueSub]) ''test''
          \<lparr>RWorld = Inr (examplePackage (Some 5) [''a'', ''package-operator.run/loader-job'']),
             RTrace = []\<rparr>)) = zeroResult
   \<and> (SubReconcile 0, None)
       \<notin> set (newReconcileCalls
            \<lparr>RWorld = Inr (examplePackage (Some 5) [''a'', ''package-operator.run/loader-job'']),
               RTrace = []\<rparr>
            (snd (Reconcile (scriptedController (\<lambda>p. None) (\<lambda>p. None) [requeueSub]) ''test''
               \<lparr>RWorld = Inr (examplePackage (Some 5) [''a'', ''package-operator.run/loader-job'']),
                  RTrace = []\<rparr>)))
   \<and> newReconcileCalls
        \<lparr>RWorld = Inr (examplePackage (Some 5) [''a'', ''package-operator.run/loader-job'']),
           RTrace = []\<rparr>
        (snd (Reconcile (scriptedController (\<lambda>p. None) (\<lambda>p. None) [requeueSub]) ''test''
           \<lparr>RWorld = Inr (examplePackage (Some 5) [''a'', ''package-operator.run/loader-job'']),
              RTrace = []\<rparr>))
       = [(PackageGet ''test'', None),
          (FinalizerRemoval
             (examplePackage (Some 5) [''a'', ''package-operator.run/loader-job''])
             ''package-operator.run/loader-job'', None),
          (PackageUpdate (examplePackage (Some 5) [''a'']), None),
          (RecordPackageMetrics (examplePackage (Some 5) [''a'']), None)]"
proof -
  let ?pkg = "examplePackage (Some 5) [''a'', ''package-operator.run/loader-job'']"
  let ?s = "\<lparr>RWorld = Inr ?pkg, RTrace = []\<rparr> :: (error + genericPackage) reconcileState"
  let ?c = "scriptedController (\<lambda>p. None) (\<lambda>p. None) [requeueSub]"
  have get: "clientGet ?c ''test'' (RWorld ?s) = (Inr ?pkg, Inr ?pkg)"
    by (simp add: scriptedController_def)
  have deleting: "\<not> timeIsZero (DeletionTimestamp ?pkg)"
    by (simp add: examplePackage_def timeIsZero_def)
  have run: "Reconcile ?c ''test'' ?s
      = ((fst (fst (Reconcile ?c ''test'' ?s)), snd (fst (Reconcile ?c ''test'' ?s))),
         snd (Reconcile ?c ''test'' ?s))"
    by simp
  note T = deletion_skips_forward_chain [OF get deleting run]
  from T have 1: "fst (fst (Reconcile ?c ''test'' ?s)) = zeroResult" by (rule conjunct1)
  from T [THEN conjunct2, THEN conjunct1]
  have 2: "(SubReconcile 0, None) \<notin> set (newReconcileCalls ?s (snd (Reconcile ?c ''test'' ?s)))"
    by (elim allE)
  have 3: "newReconcileCalls ?s (snd (Reconcile ?c ''test'' ?s))
       = [(PackageGet ''test'', None),
          (FinalizerRemoval ?pkg ''package-operator.run/loader-job'', None),
          (PackageUpdate (examplePackage (Some 5) [''a'']), None),
          (RecordPackageMetrics (examplePackage (Some 5) [''a'']), None)]"
    by code_simp
  from 1 2 3 show ?thesis by (intro conjI)
qed




end
